theory Spec2Isabelle
  imports Main "HOL-Library.AList"
begin

section \<open>Python strings\<close>

text \<open>
  A Python \<^verbatim>\<open>str\<close> is a sequence of Unicode code points. A code point is modelled as a
  natural number and a \<^verbatim>\<open>str\<close> as a list of them, so that the whitespace of
  \<^verbatim>\<open>str.strip()\<close> and of the regular expression class \<^verbatim>\<open>\s\<close> is the one CPython uses and
  not only its ASCII part. A literal of the source is written \<open>str ''...''\<close>.
\<close>

type_synonym pystr = "nat list"

definition str :: "string \<Rightarrow> pystr" where
  "str s = map of_char s"

abbreviation TAB :: nat where "TAB \<equiv> 9"
abbreviation LF :: nat where "LF \<equiv> 10"
abbreviation CR :: nat where "CR \<equiv> 13"
abbreviation HASH :: nat where "HASH \<equiv> 35"
abbreviation DQUOTE :: nat where "DQUOTE \<equiv> 34"
abbreviation QUOTE :: nat where "QUOTE \<equiv> 39"

text \<open>
  \<^verbatim>\<open>Py_UNICODE_ISSPACE\<close>: the code points that \<^verbatim>\<open>str.strip()\<close> removes and that \<^verbatim>\<open>\s\<close> matches in
  a \<^verbatim>\<open>str\<close> pattern (both call the same predicate): U+0009..U+000D, U+001C..U+0020,
  U+0085, U+00A0, U+1680, U+2000..U+200A, U+2028, U+2029, U+202F, U+205F, U+3000.
\<close>

definition isspace :: "nat \<Rightarrow> bool" where
  "isspace c \<longleftrightarrow>
     (9 \<le> c \<and> c \<le> 13) \<or> (28 \<le> c \<and> c \<le> 32) \<or> c = 133 \<or> c = 160 \<or> c = 5760 \<or>
     (8192 \<le> c \<and> c \<le> 8202) \<or> c = 8232 \<or> c = 8233 \<or> c = 8239 \<or> c = 8287 \<or> c = 12288"

text \<open>\<^verbatim>\<open>s.strip()\<close>: leading and trailing whitespace removed.\<close>

definition strip :: "pystr \<Rightarrow> pystr" where
  "strip s = rev (dropWhile isspace (rev (dropWhile isspace s)))"

text \<open>\<^verbatim>\<open>s.startswith(p)\<close>.\<close>

definition startswith :: "pystr \<Rightarrow> pystr \<Rightarrow> bool" where
  "startswith s p \<longleftrightarrow> take (length p) s = p"

text \<open>
  \<^verbatim>\<open>s.split(sep)\<close> for a separator of one character: the pieces between the separators, empty
  pieces kept, always at least one piece.
\<close>

fun split_sep :: "nat \<Rightarrow> pystr \<Rightarrow> pystr list" where
  "split_sep sep [] = [[]]"
| "split_sep sep (c # cs) =
     (if c = sep then [] # split_sep sep cs
      else (case split_sep sep cs of
              [] \<Rightarrow> [[c]]
            | p # ps \<Rightarrow> (c # p) # ps))"

text \<open>\<^verbatim>\<open>sep.join(parts)\<close> for a separator of one character.\<close>

fun join :: "nat \<Rightarrow> pystr list \<Rightarrow> pystr" where
  "join sep [] = []"
| "join sep [p] = p"
| "join sep (p # q # ps) = p @ sep # join sep (q # ps)"

text \<open>
  \<^verbatim>\<open>re.sub(r'\s+', '\t', s)\<close>: scanning from the left, the greedy match of \<^verbatim>\<open>\s+\<close> at a
  whitespace character takes the whole run of whitespace that starts there, and the run is
  replaced by one tab; every other character is copied.
\<close>

function re_sub_ws_tab :: "pystr \<Rightarrow> pystr" where
  "re_sub_ws_tab [] = []"
| "re_sub_ws_tab (c # cs) =
     (if isspace c then TAB # re_sub_ws_tab (dropWhile isspace cs)
      else c # re_sub_ws_tab cs)"
  by pat_completeness auto
termination
  by (relation "measure length") (auto simp: length_dropWhile_le less_Suc_eq_le)

text \<open>
  Text mode with the default \<^verbatim>\<open>newline=None\<close>: on reading, \<^verbatim>\<open>\r\n\<close> and a lone \<^verbatim>\<open>\r\<close> are
  both translated to \<^verbatim>\<open>\n\<close>.
\<close>

fun universal_newlines :: "pystr \<Rightarrow> pystr" where
  "universal_newlines [] = []"
| "universal_newlines [c] = (if c = CR then [LF] else [c])"
| "universal_newlines (c # d # cs) =
     (if c = CR \<and> d = LF then LF # universal_newlines cs
      else if c = CR then LF # universal_newlines (d # cs)
      else c # universal_newlines (d # cs))"

text \<open>
  \<^verbatim>\<open>f.readlines()\<close> and \<^verbatim>\<open>for line in f\<close>: the text cut after every \<^verbatim>\<open>\n\<close>; every line keeps
  its \<^verbatim>\<open>\n\<close>, and the last line has none when the text does not end with one.
\<close>

fun readlines :: "pystr \<Rightarrow> pystr list" where
  "readlines [] = []"
| "readlines (c # cs) =
     (if c = LF then [LF] # readlines cs
      else (case readlines cs of
              [] \<Rightarrow> [[c]]
            | l # ls \<Rightarrow> (c # l) # ls))"

section \<open>Files, standard output and exceptions\<close>

text \<open>
  The exceptions the two scripts distinguish: \<^verbatim>\<open>FileNotFoundError\<close> (with the file name it
  carries) and every other subclass of \<^verbatim>\<open>Exception\<close> (with the text \<^verbatim>\<open>str(e)\<close> that the
  handlers print).
\<close>

datatype exn = FileNotFoundError pystr | OtherException pystr

text \<open>
  What a path names: nothing (in a directory that exists, so that \<^verbatim>\<open>open(p, 'w')\<close> creates
  the file), a text file with its decoded contents, or something on which \<^verbatim>\<open>open\<close> raises
  (a directory, a missing parent directory, no permission).
\<close>

datatype node = Absent | Regular pystr | Faulty exn

text \<open>
  The part of the world the scripts act on: the files, and the texts passed to \<^verbatim>\<open>print\<close>, one
  entry per call, in order.
\<close>

record world =
  files :: "pystr \<Rightarrow> node"
  stdout :: "pystr list"

definition print :: "pystr \<Rightarrow> world \<Rightarrow> world" where
  "print s w = w\<lparr>stdout := stdout w @ [s]\<rparr>"

text \<open>\<^verbatim>\<open>open(p, 'r')\<close>: the exception it raises, if any.\<close>

definition open_r :: "world \<Rightarrow> pystr \<Rightarrow> exn option" where
  "open_r w p =
     (case files w p of
        Absent \<Rightarrow> Some (FileNotFoundError p)
      | Faulty e \<Rightarrow> Some e
      | Regular c \<Rightarrow> None)"

text \<open>
  What is read through a handle open on \<open>p\<close>: the text the file holds when the reading
  starts, newlines translated.
\<close>

definition read_text :: "world \<Rightarrow> pystr \<Rightarrow> pystr" where
  "read_text w p = (case files w p of Regular c \<Rightarrow> universal_newlines c | _ \<Rightarrow> [])"

text \<open>\<^verbatim>\<open>open(p, 'w')\<close>: the file is created, or truncated when it exists.\<close>

definition open_w :: "world \<Rightarrow> pystr \<Rightarrow> exn + world" where
  "open_w w p =
     (case files w p of
        Faulty e \<Rightarrow> Inl e
      | _ \<Rightarrow> Inr (w\<lparr>files := (files w)(p := Regular [])\<rparr>))"

text \<open>
  The text written through a handle is collected in the state of the loop that writes it and
  stored in the file when the \<^verbatim>\<open>with\<close> block closes the handle (on POSIX, where \<^verbatim>\<open>\n\<close> is
  written as it is). Two handles opened for writing on one path keep separate buffers and
  offsets, and what the file holds afterwards depends on when CPython flushes them: the
  statements below about file contents are for distinct output paths.
\<close>

section \<open>Stage A: \<^verbatim>\<open>1_format_RM.py\<close>\<close>

definition header :: "pystr list" where
  "header = map str
     [''SW_score'', ''perc_div'', ''perc_del'', ''perc_ins'', ''query_sequence'',
      ''begin'', ''end'', ''left'', ''strand'', ''matching_repeat'', ''repeat_class_family'',
      ''begin_in_repeat'', ''end_in_repeat'', ''left_in_repeat'', ''ID'', ''optional_star'']"

text \<open>The state of the loop of step 3: the two open output files and what was printed.\<close>

record reformat_state =
  main_outfile :: pystr
  extra_outfile :: pystr
  printed :: "pystr list"

text \<open>The body of \<^verbatim>\<open>for line in data_lines\<close>.\<close>

definition process_line :: "pystr \<Rightarrow> reformat_state \<Rightarrow> reformat_state" where
  "process_line line st =
     (let clean_line = strip line in
      if clean_line = [] then st
      else
        let tab_delimited_line = re_sub_ws_tab clean_line;
            st1 = st\<lparr>main_outfile := main_outfile st @ tab_delimited_line @ [LF]\<rparr>;
            columns = split_sep TAB tab_delimited_line
        in if 11 \<le> length columns
           then st1\<lparr>extra_outfile :=
                      extra_outfile st1 @ (columns ! 9) @ [TAB] @ (columns ! 10) @ [LF]\<rparr>
           else st1\<lparr>printed := printed st1 @
                      [str ''Warning: Skipped a line with fewer than 11 columns: '' @
                       [QUOTE] @ clean_line @ [QUOTE]]\<rparr>)"

text \<open>
  The \<^verbatim>\<open>try\<close> block of \<^verbatim>\<open>format_repeatmasker_output\<close>: the exception it raises, if any, and the
  world it leaves.
\<close>

definition format_body :: "world \<Rightarrow> pystr \<Rightarrow> pystr \<Rightarrow> pystr \<Rightarrow> exn option \<times> world" where
  "format_body w input_file main_output_file extra_output_file =
     (case open_r w input_file of
        Some e \<Rightarrow> (Some e, w)
      | None \<Rightarrow>
          let all_lines = readlines (read_text w input_file);
              data_lines = drop 3 all_lines
          in (case open_w w main_output_file of
                Inl e \<Rightarrow> (Some e, w)
              | Inr w1 \<Rightarrow>
                 (case open_w w1 extra_output_file of
                    Inl e \<Rightarrow> (Some e, w1)
                  | Inr w2 \<Rightarrow>
                      let st = fold process_line data_lines
                                 \<lparr>main_outfile = join TAB header @ [LF],
                                  extra_outfile = [], printed = []\<rparr>;
                          w3 = w2\<lparr>files := (files w2)
                                   (extra_output_file := Regular (extra_outfile st),
                                    main_output_file := Regular (main_outfile st)),
                                 stdout := stdout w2 @ printed st\<rparr>;
                          w4 = print (str ''Successfully processed '' @ [QUOTE] @
                                      input_file @ [QUOTE] @ str ''.'') w3;
                          w5 = print (str ''  - Main TSV saved to: '' @ [QUOTE] @
                                      main_output_file @ [QUOTE]) w4;
                          w6 = print (str ''  - Extra columns saved to: '' @ [QUOTE] @
                                      extra_output_file @ [QUOTE]) w5
                      in (None, w6))))"

text \<open>
  \<^verbatim>\<open>format_repeatmasker_output\<close> with its two handlers. The first component of the result is the
  exception that leaves the function, \<open>None\<close> when it returns.
\<close>

definition format_repeatmasker_output ::
  "world \<Rightarrow> pystr \<Rightarrow> pystr \<Rightarrow> pystr \<Rightarrow> exn option \<times> world" where
  "format_repeatmasker_output w input_file main_output_file extra_output_file =
     (case format_body w input_file main_output_file extra_output_file of
        (None, w') \<Rightarrow> (None, w')
      | (Some (FileNotFoundError _), w') \<Rightarrow>
          (None, print (str ''Error: The file '' @ [QUOTE] @ input_file @ [QUOTE] @
                        str '' was not found.'') w')
      | (Some (OtherException msg), w') \<Rightarrow>
          (None, print (str ''An error occurred: '' @ msg) w'))"

section \<open>Stage B: \<^verbatim>\<open>2_add_TEclass.py\<close>\<close>

text \<open>
  Two things the diagnostics of stage B print depend on the interpreter and not on the
  script: \<^verbatim>\<open>repr\<close> of a file name (inside \<^verbatim>\<open>str(e)\<close> of a \<^verbatim>\<open>FileNotFoundError\<close>), and the order in
  which a \<^verbatim>\<open>set\<close> of strings is iterated (it varies with the hash seed of the process). Both
  are parameters. A \<^verbatim>\<open>set\<close> is kept as the list of its elements in the order they were first
  added, and \<open>set_order\<close> rearranges that list into the order of iteration.
\<close>

record runtime =
  repr_str :: "pystr \<Rightarrow> pystr"
  set_order :: "pystr list \<Rightarrow> pystr list"

definition set_add :: "pystr \<Rightarrow> pystr list \<Rightarrow> pystr list" where
  "set_add x xs = (if x \<in> set xs then xs else xs @ [x])"

definition str_exn :: "runtime \<Rightarrow> exn \<Rightarrow> pystr" where
  "str_exn rt e =
     (case e of
        FileNotFoundError p \<Rightarrow> str ''[Errno 2] No such file or directory: '' @ repr_str rt p
      | OtherException msg \<Rightarrow> msg)"

text \<open>\<^verbatim>\<open>str(n)\<close> of a count, in decimal.\<close>

function str_nat :: "nat \<Rightarrow> pystr" where
  "str_nat n = (if n < 10 then [48 + n] else str_nat (n div 10) @ [48 + n mod 10])"
  by pat_completeness auto
termination
  by (relation "measure id") auto

declare str_nat.simps [simp del]

text \<open>
  \<^verbatim>\<open>re.search(r'Motif:([^"\s]+)', attributes)\<close> and \<^verbatim>\<open>match.group(1)\<close>: the leftmost position
  where \<^verbatim>\<open>Motif:\<close> is followed by at least one character that is neither a double quote nor
  whitespace, and the longest run of such characters there; \<open>None\<close> when there is no match.
\<close>

definition motif_char :: "nat \<Rightarrow> bool" where
  "motif_char c \<longleftrightarrow> c \<noteq> DQUOTE \<and> \<not> isspace c"

fun re_search_motif :: "pystr \<Rightarrow> pystr option" where
  "re_search_motif [] = None"
| "re_search_motif (c # cs) =
     (let group1 = takeWhile motif_char (drop 6 (c # cs)) in
      if startswith (c # cs) (str ''Motif:'') \<and> group1 \<noteq> [] then Some group1
      else re_search_motif cs)"

text \<open>
  Step 1. The dictionary \<^verbatim>\<open>motif_to_family\<close> is an association list in insertion order (the
  order \<^verbatim>\<open>items()\<close> iterates in): assigning to a key that is present replaces its value in
  place, assigning to a new key appends.
\<close>

record lookup_state =
  motif_to_family :: "(pystr \<times> pystr) list"
  lookup_printed :: "pystr list"

text \<open>
  The body of \<^verbatim>\<open>for line in f\<close>. The unpacking \<^verbatim>\<open>motif, family = ...\<close> raises \<^verbatim>\<open>ValueError\<close>
  unless the split gives exactly two pieces, and the handler prints the warning.
\<close>

definition read_family_line :: "pystr \<Rightarrow> lookup_state \<Rightarrow> lookup_state" where
  "read_family_line line0 st =
     (let line = strip line0 in
      if line = [] then st
      else (case split_sep TAB (strip line) of
              [motif, family] \<Rightarrow>
                st\<lparr>motif_to_family := AList.update motif family (motif_to_family st)\<rparr>
            | _ \<Rightarrow>
                st\<lparr>lookup_printed := lookup_printed st @
                     [str ''Warning: Skipping malformed line in family list: '' @
                      [QUOTE] @ line @ [QUOTE]]\<rparr>))"

text \<open>Step 2. The state of the loop over the GFF: the open output file and the diagnostics.\<close>

record annot_state =
  outfile :: pystr
  found_count :: nat
  unknown_count :: nat
  unknown_motifs_found :: "pystr list"
  motifs_in_gff :: "pystr list"

text \<open>The body of \<^verbatim>\<open>for line in infile\<close>.\<close>

definition annotate_line :: "(pystr \<times> pystr) list \<Rightarrow> pystr \<Rightarrow> annot_state \<Rightarrow> annot_state" where
  "annotate_line d line st =
     (if startswith line (str ''#'') then st
      else
        let line_stripped = strip line in
        if line_stripped = [] then st
        else
          let parts = split_sep TAB line_stripped in
          if length parts < 9 then st
          else
            let attributes = parts ! 8;
                (family_to_add, st1) =
                  (case re_search_motif attributes of
                     Some motif \<Rightarrow>
                       let st0 = st\<lparr>motifs_in_gff := set_add motif (motifs_in_gff st)\<rparr> in
                       (case map_of d motif of
                          Some family \<Rightarrow> (family, st0\<lparr>found_count := found_count st0 + 1\<rparr>)
                        | None \<Rightarrow>
                            (str ''UNKNOWN'',
                             st0\<lparr>unknown_count := unknown_count st0 + 1,
                                 unknown_motifs_found :=
                                   set_add motif (unknown_motifs_found st0)\<rparr>))
                   | None \<Rightarrow> (str ''UNKNOWN'', st\<lparr>unknown_count := unknown_count st + 1\<rparr>))
            in st1\<lparr>outfile := outfile st1 @ line_stripped @ [TAB] @ family_to_add @ [LF]\<rparr>)"

text \<open>The final diagnostic report.\<close>

definition example_line :: "pystr \<Rightarrow> pystr" where
  "example_line motif = str ''  - '' @ [QUOTE] @ motif @ [QUOTE]"

definition report :: "runtime \<Rightarrow> (pystr \<times> pystr) list \<Rightarrow> pystr \<Rightarrow> annot_state \<Rightarrow> pystr list" where
  "report rt d output_file st =
     [[LF] @ str ''--- Process Finished ---'',
      str ''Output file saved to '' @ [QUOTE] @ output_file @ [QUOTE],
      [LF] @ str ''--- Diagnostic Summary ---'',
      str ''Successfully mapped motifs: '' @ str_nat (found_count st),
      str ''Motifs not found (marked as UNKNOWN): '' @ str_nat (unknown_count st)] @
     (if unknown_count st > 0 then
        [[LF] @ str ''--- Mismatch Analysis ---'',
         str ''To fix this, compare the names from the GFF with the names in your family list.'',
         [LF] @ str ''Examples of motifs found in your GFF file:''] @
        map example_line (take 5 (set_order rt (motifs_in_gff st))) @
        [[LF] @ str ''Examples of motifs from your family list file (the lookup keys):''] @
        map example_line (take 5 (map fst d)) @
        [[LF] @ str ''Check for subtle differences like parentheses, quotes, or extra characters.'']
      else [])"

text \<open>The \<^verbatim>\<open>try\<close> block of \<^verbatim>\<open>add_family_column\<close>.\<close>

definition add_family_body ::
  "runtime \<Rightarrow> world \<Rightarrow> pystr \<Rightarrow> pystr \<Rightarrow> pystr \<Rightarrow> exn option \<times> world" where
  "add_family_body rt w gff_input_file family_list_file output_file =
     (let w1 = print (str ''Reading TE family map from '' @ [QUOTE] @ family_list_file @
                      [QUOTE] @ str ''...'') w
      in case open_r w1 family_list_file of
           Some e \<Rightarrow> (Some e, w1)
         | None \<Rightarrow>
             let lk = fold read_family_line (readlines (read_text w1 family_list_file))
                        \<lparr>motif_to_family = [], lookup_printed = []\<rparr>;
                 w2 = w1\<lparr>stdout := stdout w1 @ lookup_printed lk\<rparr>;
                 d = motif_to_family lk
             in if d = [] then
                  (None, print ([LF] @ str ''Error: The family lookup dictionary is empty. Please check your family list file.'') w2)
                else
                  let w3 = print (str ''Successfully mapped '' @ str_nat (length d) @
                                  str '' motifs.'') w2;
                      w4 = print (str ''Processing '' @ [QUOTE] @ gff_input_file @ [QUOTE] @
                                  str '' and writing to '' @ [QUOTE] @ output_file @ [QUOTE] @
                                  str ''...'') w3
                  in (case open_r w4 gff_input_file of
                        Some e \<Rightarrow> (Some e, w4)
                      | None \<Rightarrow>
                         (case open_w w4 output_file of
                            Inl e \<Rightarrow> (Some e, w4)
                          | Inr w5 \<Rightarrow>
                              let st = fold (annotate_line d)
                                         (readlines (read_text w5 gff_input_file))
                                         \<lparr>outfile = [], found_count = 0, unknown_count = 0,
                                          unknown_motifs_found = [], motifs_in_gff = []\<rparr>;
                                  w6 = w5\<lparr>files := (files w5)
                                           (output_file := Regular (outfile st))\<rparr>
                              in (None, w6\<lparr>stdout := stdout w6 @ report rt d output_file st\<rparr>))))"

text \<open>
  \<^verbatim>\<open>add_family_column\<close>: the first \<^verbatim>\<open>print\<close>, the \<^verbatim>\<open>try\<close> block and its two handlers. The first
  component of the result is the exception that leaves the function, \<open>None\<close> when it returns.
\<close>

definition add_family_column ::
  "runtime \<Rightarrow> world \<Rightarrow> pystr \<Rightarrow> pystr \<Rightarrow> pystr \<Rightarrow> exn option \<times> world" where
  "add_family_column rt w gff_input_file family_list_file output_file =
     (case add_family_body rt (print (str ''--- Starting Process ---'') w)
             gff_input_file family_list_file output_file of
        (None, w') \<Rightarrow> (None, w')
      | (Some (FileNotFoundError p), w') \<Rightarrow>
          (None, print (str ''Error: A required file was not found. Details: '' @
                        str_exn rt (FileNotFoundError p)) w')
      | (Some (OtherException msg), w') \<Rightarrow>
          (None, print (str ''An unexpected error occurred: '' @
                        str_exn rt (OtherException msg)) w'))"

section \<open>Notions of the specification\<close>

text \<open>
  The whitespace-delimited tokens of a line (what \<^verbatim>\<open>line.split()\<close> returns): the maximal runs
  of characters that are not whitespace, in order.
\<close>

function ws_tokens :: "pystr \<Rightarrow> pystr list" where
  "ws_tokens [] = []"
| "ws_tokens (c # cs) =
     (if isspace c then ws_tokens cs
      else (c # takeWhile (\<lambda>x. \<not> isspace x) cs) #
           ws_tokens (dropWhile (\<lambda>x. \<not> isspace x) cs))"
  by pat_completeness auto
termination
  by (relation "measure length") (auto simp: length_dropWhile_le less_Suc_eq_le)

text \<open>
  Stage A. The lines it keeps: those that remain after the first three lines are removed and
  that are not blank after trimming, in input order.
\<close>

definition kept_lines :: "pystr \<Rightarrow> pystr list" where
  "kept_lines content =
     filter (\<lambda>l. strip l \<noteq> []) (drop 3 (readlines (universal_newlines content)))"

text \<open>
  The data line of a kept line: the trimmed line with every maximal run of whitespace
  replaced by one tab, which is to say its tokens joined by single tabs.
\<close>

definition data_line :: "pystr \<Rightarrow> pystr" where
  "data_line l = join TAB (ws_tokens l) @ [LF]"

definition main_text :: "pystr list \<Rightarrow> pystr" where
  "main_text ls = join TAB header @ [LF] @ concat (map data_line ls)"

text \<open>The side output: one line for every kept line with at least 11 tokens.\<close>

definition side_line :: "pystr \<Rightarrow> pystr" where
  "side_line l = (ws_tokens l ! 9) @ [TAB] @ (ws_tokens l ! 10) @ [LF]"

definition side_text :: "pystr list \<Rightarrow> pystr" where
  "side_text ls = concat (map side_line (filter (\<lambda>l. 11 \<le> length (ws_tokens l)) ls))"

text \<open>The diagnostic for a kept line with fewer than 11 tokens.\<close>

definition short_line_warning :: "pystr \<Rightarrow> pystr" where
  "short_line_warning l =
     str ''Warning: Skipped a line with fewer than 11 columns: '' @ [QUOTE] @ strip l @ [QUOTE]"

text \<open>A text without its first line (the header of a main output).\<close>

definition remove_first_line :: "pystr \<Rightarrow> pystr" where
  "remove_first_line s = drop 1 (dropWhile (\<lambda>c. c \<noteq> LF) s)"

text \<open>A world that holds the given text files and nothing else, with nothing printed yet.\<close>

definition text_world :: "(pystr \<times> pystr) list \<Rightarrow> world" where
  "text_world fs =
     \<lparr>files = (\<lambda>p. case map_of fs p of Some c \<Rightarrow> Regular c | None \<Rightarrow> Absent),
      stdout = []\<rparr>"

text \<open>
  Example inputs. A report of three header lines and four more: a line of two tokens with
  surrounding blanks and a Windows line end, a blank line, the line of fifteen tokens of the specification's scenario, and a
  last line without a newline.
\<close>

definition example_report :: pystr where
  "example_report =
     str ''h1'' @ [LF] @ str ''h2'' @ [LF] @ [LF] @
     str ''  x  y '' @ [CR, LF] @
     [32, LF] @
     str ''12  1.2  3  0  seq1  1  10  (90)  +  rnd-1_family  LINE/L1  1  10  (0)  1'' @ [LF] @
     str ''z''"

definition example_world_A :: world where
  "example_world_A = text_world [(str ''in'', example_report)]"

text \<open>
  A report whose first three kept lines have one token each and whose fourth is the line of
  the specification's scenario.
\<close>

definition example_report_B :: pystr where
  "example_report_B =
     str ''h1'' @ [LF] @ str ''h2'' @ [LF] @ str ''h3'' @ [LF] @
     str ''a'' @ [LF] @ str ''b'' @ [LF] @ str ''c'' @ [LF] @
     str ''12  1.2  3  0  seq1  1  10  (90)  +  rnd-1_family  LINE/L1  1  10  (0)  1'' @ [LF]"

definition example_world_B :: world where
  "example_world_B = text_world [(str ''in'', example_report_B)]"

text \<open>A world in which opening the file \<^verbatim>\<open>in\<close> is refused, and no other file exists.\<close>

definition example_world_denied :: world where
  "example_world_denied =
     \<lparr>files = (\<lambda>p. if p = str ''in''
                     then Faulty (OtherException (str ''[Errno 13] Permission denied''))
                     else Absent),
      stdout = []\<rparr>"

text \<open>
  Stage B. A line of the lookup file gives an entry when, trimmed, it splits on tabs into
  exactly two fields; a line that is not blank and gives no entry is malformed.
\<close>

definition family_entry :: "pystr \<Rightarrow> (pystr \<times> pystr) option" where
  "family_entry l =
     (case split_sep TAB (strip l) of
        [motif, family] \<Rightarrow> Some (motif, family)
      | _ \<Rightarrow> None)"

definition family_entries :: "pystr list \<Rightarrow> (pystr \<times> pystr) list" where
  "family_entries ls = List.map_filter family_entry ls"

definition malformed :: "pystr \<Rightarrow> bool" where
  "malformed l \<longleftrightarrow> strip l \<noteq> [] \<and> family_entry l = None"

definition malformed_warning :: "pystr \<Rightarrow> pystr" where
  "malformed_warning l =
     str ''Warning: Skipping malformed line in family list: '' @ [QUOTE] @ strip l @ [QUOTE]"

text \<open>The dictionary stage B builds from the text of a lookup file, and what it prints.\<close>

definition build_lookup :: "pystr \<Rightarrow> lookup_state" where
  "build_lookup text =
     fold read_family_line (readlines (universal_newlines text))
       \<lparr>motif_to_family = [], lookup_printed = []\<rparr>"

text \<open>
  A line of the GFF qualifies for output when its raw text does not begin with \<^verbatim>\<open>#\<close>, it is
  not blank after trimming, and the trimmed line has at least 9 tab-separated fields.
\<close>

definition qualifies :: "pystr \<Rightarrow> bool" where
  "qualifies l \<longleftrightarrow>
     \<not> startswith l (str ''#'') \<and> strip l \<noteq> [] \<and> 9 \<le> length (split_sep TAB (strip l))"

text \<open>
  The label of a qualifying line: the family of the motif extracted from field 8 when the
  dictionary has it, and \<^verbatim>\<open>UNKNOWN\<close> otherwise.
\<close>

definition resolved_label :: "(pystr \<times> pystr) list \<Rightarrow> pystr \<Rightarrow> pystr" where
  "resolved_label d l =
     (case re_search_motif (split_sep TAB (strip l) ! 8) of
        None \<Rightarrow> str ''UNKNOWN''
      | Some motif \<Rightarrow> (case map_of d motif of None \<Rightarrow> str ''UNKNOWN'' | Some family \<Rightarrow> family))"

definition annotated :: "(pystr \<times> pystr) list \<Rightarrow> pystr \<Rightarrow> pystr" where
  "annotated d l = strip l @ [TAB] @ resolved_label d l @ [LF]"

definition annotated_text :: "(pystr \<times> pystr) list \<Rightarrow> pystr list \<Rightarrow> pystr" where
  "annotated_text d ls = concat (map (annotated d) (filter qualifies ls))"

text \<open>An interpreter for the examples: plain quotes for \<^verbatim>\<open>repr\<close>, sets iterated in insertion order.\<close>

definition example_runtime :: runtime where
  "example_runtime = \<lparr>repr_str = (\<lambda>p. [QUOTE] @ p @ [QUOTE]), set_order = (\<lambda>xs. xs)\<rparr>"


text \<open>A lookup file that gives no entry: a line without a tab and a blank line.\<close>

definition example_lookup_bad :: pystr where
  "example_lookup_bad = str ''no tab here'' @ [LF] @ [LF]"

text \<open>
  The GFF line of the specification's scenario, a GFF line without a motif, and the state
  in which the loop over the GFF starts.
\<close>

definition example_gff_line :: pystr where
  "example_gff_line =
     join TAB (map str [''chr1'', ''rm'', ''match'', ''1'', ''10'', ''.'', ''+'', ''.'']) @ [TAB] @
     str ''Target '' @ [DQUOTE] @ str ''Motif:rnd-1_family'' @ [DQUOTE] @ str '' 1 10'' @ [LF]"

definition example_gff_line_plain :: pystr where
  "example_gff_line_plain =
     join TAB (map str [''chr1'', ''rm'', ''match'', ''20'', ''30'', ''.'', ''-'', ''.'']) @ [TAB] @
     str ''Target none'' @ [LF]"

definition annot_start :: annot_state where
  "annot_start =
     \<lparr>outfile = [], found_count = 0, unknown_count = 0,
      unknown_motifs_found = [], motifs_in_gff = []\<rparr>"

text \<open>
  A lookup file of one entry, and two GFF texts. In the first, a comment line is followed by
  the line of the scenario written after a blank and with \<^verbatim>\<open>#seq\<close> as its first field. In
  the second, a comment line and a blank line are followed by a line that starts with a tab
  and then \<^verbatim>\<open>#\<close>, and has nine fields once trimmed.
\<close>

definition example_lookup_small :: pystr where
  "example_lookup_small = str ''rnd-1_family'' @ [TAB] @ str ''LINE'' @ [LF]"

definition example_gff_hash :: pystr where
  "example_gff_hash =
     str ''##gff-version 3'' @ [LF] @
     str '' #seq'' @ [TAB] @
     join TAB (map str [''rm'', ''match'', ''1'', ''10'', ''.'', ''+'', ''.'']) @ [TAB] @
     str ''Target '' @ [DQUOTE] @ str ''Motif:rnd-1_family'' @ [DQUOTE] @ str '' 1 10'' @ [LF]"

definition example_world_hash :: world where
  "example_world_hash =
     text_world [(str ''fam'', example_lookup_small), (str ''gff'', example_gff_hash)]"

definition example_indented_line :: pystr where
  "example_indented_line =
     [TAB] @ str ''# copied by hand'' @ [TAB] @
     join TAB (map str [''rm'', ''match'', ''5'', ''9'', ''.'', ''-'', ''.'', ''ID=7'']) @ [LF]"

definition example_gff_indented :: pystr where
  "example_gff_indented = str ''# a comment'' @ [LF] @ [32, LF] @ example_indented_line"

definition example_world_indented :: world where
  "example_world_indented =
     text_world [(str ''fam'', example_lookup_small), (str ''gff'', example_gff_indented)]"

text \<open>
  The motif token of an attributes field, in the words of the specification: \<open>xyz\<close> is the
  identifier of the field when the field reads \<open>before\<close>, then \<^verbatim>\<open>Motif:\<close>, then \<open>xyz\<close>, then
  \<open>rest\<close>, where \<open>xyz\<close> is a run of one or more characters that are neither a double quote
  nor whitespace, the run is as long as it can be (\<open>rest\<close> is empty or starts with a double
  quote or whitespace), and no \<^verbatim>\<open>Motif:\<close> followed by such a character starts further to the
  left.
\<close>

definition extracts :: "pystr \<Rightarrow> pystr \<Rightarrow> bool" where
  "extracts attributes xyz \<longleftrightarrow>
     (\<exists>before rest.
        attributes = before @ str ''Motif:'' @ xyz @ rest \<and>
        xyz \<noteq> [] \<and>
        (\<forall>c\<in>set xyz. c \<noteq> DQUOTE \<and> \<not> isspace c) \<and>
        (rest = [] \<or> hd rest = DQUOTE \<or> isspace (hd rest)) \<and>
        (\<forall>p c q. attributes = p @ str ''Motif:'' @ c # q \<and> c \<noteq> DQUOTE \<and> \<not> isspace c \<longrightarrow>
                 length before \<le> length p))"

text \<open>
  A line counts as found when its field 8 has a motif token whose identifier is a key of the
  dictionary, and as unknown otherwise; the two totals are taken over the qualifying lines.
\<close>

definition known_line :: "(pystr \<times> pystr) list \<Rightarrow> pystr \<Rightarrow> bool" where
  "known_line d l \<longleftrightarrow>
     (\<exists>xyz family. extracts (split_sep TAB (strip l) ! 8) xyz \<and> map_of d xyz = Some family)"

definition found_total :: "(pystr \<times> pystr) list \<Rightarrow> pystr list \<Rightarrow> nat" where
  "found_total d ls = length (filter (known_line d) (filter qualifies ls))"

definition unknown_total :: "(pystr \<times> pystr) list \<Rightarrow> pystr list \<Rightarrow> nat" where
  "unknown_total d ls = length (filter (\<lambda>l. \<not> known_line d l) (filter qualifies ls))"

text \<open>
  A GFF of a comment line, the line without a motif and the line of the scenario; a world
  with this GFF and the lookup file of one entry, and a world with the same GFF and a lookup
  file that has no entry for the motif of the scenario.
\<close>

definition example_gff_two :: pystr where
  "example_gff_two =
     str ''##gff-version 3'' @ [LF] @ example_gff_line_plain @ example_gff_line"

definition example_world_two :: world where
  "example_world_two =
     text_world [(str ''fam'', example_lookup_small), (str ''gff'', example_gff_two)]"

definition example_lookup_other :: pystr where
  "example_lookup_other = str ''other'' @ [TAB] @ str ''DNA'' @ [LF]"

definition example_world_other :: world where
  "example_world_other =
     text_world [(str ''fam'', example_lookup_other), (str ''gff'', example_gff_two)]"

section \<open>Properties of the string operations\<close>

lemma isspace_TAB: "isspace TAB" by (simp add: isspace_def)
lemma isspace_LF: "isspace LF" by (simp add: isspace_def)
lemma isspace_CR: "isspace CR" by (simp add: isspace_def)

lemma ws_tokens_all_space: "\<forall>x\<in>set t. isspace x \<Longrightarrow> ws_tokens t = []"
  by (induction t) auto

lemma ws_tokens_dropWhile: "ws_tokens (dropWhile isspace s) = ws_tokens s"
  by (induction s) auto

lemma ws_tokens_append_space:
  "\<forall>x\<in>set t. isspace x \<Longrightarrow> ws_tokens (s @ t) = ws_tokens s"
proof (induction s rule: ws_tokens.induct)
  case 1
  then show ?case by (simp add: ws_tokens_all_space)
next
  case (2 c cs)
  show ?case
  proof (cases "isspace c")
    case True
    with 2 show ?thesis by simp
  next
    case False
    show ?thesis
    proof (cases "\<forall>x\<in>set cs. \<not> isspace x")
      case True
      then have a1: "takeWhile (\<lambda>x. \<not> isspace x) (cs @ t) = cs @ takeWhile (\<lambda>x. \<not> isspace x) t"
        and a2: "dropWhile (\<lambda>x. \<not> isspace x) (cs @ t) = dropWhile (\<lambda>x. \<not> isspace x) t"
        and a3: "takeWhile (\<lambda>x. \<not> isspace x) cs = cs"
        and a4: "dropWhile (\<lambda>x. \<not> isspace x) cs = []"
        by (simp_all add: takeWhile_append2 dropWhile_append2)
      have a5: "takeWhile (\<lambda>x. \<not> isspace x) t = []" using 2(3) by (cases t) auto
      have a6: "ws_tokens (dropWhile (\<lambda>x. \<not> isspace x) t) = []"
        using 2(3) by (intro ws_tokens_all_space) (auto dest: set_dropWhileD)
      show ?thesis using \<open>\<not> isspace c\<close> by (simp add: a1 a2 a3 a4 a5 a6)
    next
      case False
      then obtain x where x: "x \<in> set cs" "\<not> \<not> isspace x" by blast
      then have "takeWhile (\<lambda>x. \<not> isspace x) (cs @ t) = takeWhile (\<lambda>x. \<not> isspace x) cs"
        and "dropWhile (\<lambda>x. \<not> isspace x) (cs @ t) = dropWhile (\<lambda>x. \<not> isspace x) cs @ t"
        by (simp_all add: takeWhile_append1 dropWhile_append1)
      with 2 \<open>\<not> isspace c\<close> show ?thesis by simp
    qed
  qed
qed

lemma strip_decomp:
  "dropWhile isspace s = strip s @ rev (takeWhile isspace (rev (dropWhile isspace s)))"
proof -
  let ?d = "dropWhile isspace s"
  have e: "takeWhile isspace (rev ?d) @ dropWhile isspace (rev ?d) = rev ?d"
    by (rule takeWhile_dropWhile_id)
  have "rev (takeWhile isspace (rev ?d) @ dropWhile isspace (rev ?d)) = rev (rev ?d)"
    by (simp only: e)
  then have "rev (dropWhile isspace (rev ?d)) @ rev (takeWhile isspace (rev ?d)) = ?d"
    by (simp only: rev_append rev_rev_ident)
  then show ?thesis unfolding strip_def by (rule sym)
qed

lemma ws_tokens_strip: "ws_tokens (strip s) = ws_tokens s"
proof -
  let ?d = "dropWhile isspace s"
  have "ws_tokens ?d = ws_tokens (strip s @ rev (takeWhile isspace (rev ?d)))"
    using strip_decomp[of s] by simp
  also have "\<dots> = ws_tokens (strip s)"
    by (rule ws_tokens_append_space) (auto dest: set_takeWhileD)
  finally show ?thesis by (simp add: ws_tokens_dropWhile)
qed

lemma ws_tokens_good: "t \<in> set (ws_tokens s) \<Longrightarrow> t \<noteq> [] \<and> (\<forall>x\<in>set t. \<not> isspace x)"
proof (induction s rule: ws_tokens.induct)
  case 1
  then show ?case by simp
next
  case (2 c cs)
  show ?case
  proof (cases "isspace c")
    case True
    with 2 show ?thesis by simp
  next
    case False
    with 2(3) have "t = c # takeWhile (\<lambda>x. \<not> isspace x) cs \<or>
        t \<in> set (ws_tokens (dropWhile (\<lambda>x. \<not> isspace x) cs))" by simp
    then show ?thesis
    proof
      assume "t = c # takeWhile (\<lambda>x. \<not> isspace x) cs"
      then show ?thesis using False by (auto dest: set_takeWhileD)
    next
      assume "t \<in> set (ws_tokens (dropWhile (\<lambda>x. \<not> isspace x) cs))"
      with 2(2) False show ?thesis by blast
    qed
  qed
qed

lemma all_dropWhile: "(\<forall>x\<in>set (dropWhile P s). P x) \<longleftrightarrow> (\<forall>x\<in>set s. P x)"
  by (induction s) auto

lemma strip_Nil_iff: "strip s = [] \<longleftrightarrow> (\<forall>x\<in>set s. isspace x)"
  using all_dropWhile[of isspace s] by (auto simp: strip_def dropWhile_eq_Nil_conv)

lemma ws_tokens_Nil_iff: "ws_tokens s = [] \<longleftrightarrow> (\<forall>x\<in>set s. isspace x)"
  by (induction s) auto

lemma strip_hd: "strip s \<noteq> [] \<Longrightarrow> \<not> isspace (hd (strip s))"
proof -
  assume a: "strip s \<noteq> []"
  let ?d = "dropWhile isspace s"
  have d: "?d \<noteq> []" using a by (simp add: strip_Nil_iff dropWhile_eq_Nil_conv)
  have "hd ?d = hd (strip s @ rev (takeWhile isspace (rev ?d)))"
    using strip_decomp[of s] by simp
  then have "hd ?d = hd (strip s)" using a by simp
  moreover have "\<not> isspace (hd ?d)" using d by (rule hd_dropWhile)
  ultimately show ?thesis by simp
qed

lemma strip_last: "strip s \<noteq> [] \<Longrightarrow> \<not> isspace (last (strip s))"
proof -
  assume a: "strip s \<noteq> []"
  let ?r = "dropWhile isspace (rev (dropWhile isspace s))"
  have "?r \<noteq> []" using a by (simp add: strip_def)
  then have "\<not> isspace (hd ?r)" by (rule hd_dropWhile)
  moreover have "last (strip s) = hd ?r" using \<open>?r \<noteq> []\<close> by (simp add: strip_def last_rev)
  ultimately show ?thesis by simp
qed

lemma last_dropWhile_ne: "dropWhile P xs \<noteq> [] \<Longrightarrow> last (dropWhile P xs) = last xs"
  by (induction xs) (auto split: if_splits)

lemma re_sub_nonspace_prefix:
  "\<forall>x\<in>set t. \<not> isspace x \<Longrightarrow> re_sub_ws_tab (t @ r) = t @ re_sub_ws_tab r"
  by (induction t) simp_all

lemma ws_tokens_hd_nonspace: "s \<noteq> [] \<Longrightarrow> \<not> isspace (hd s) \<Longrightarrow> ws_tokens s \<noteq> []"
  by (cases s) simp_all

lemma join_Cons: "ts \<noteq> [] \<Longrightarrow> join sep (t # ts) = t @ sep # join sep ts"
  by (cases ts) simp_all

lemma re_sub_tokens:
  "s \<noteq> [] \<Longrightarrow> \<not> isspace (hd s) \<Longrightarrow> \<not> isspace (last s) \<Longrightarrow>
   re_sub_ws_tab s = join TAB (ws_tokens s)"
proof (induction "length s" arbitrary: s rule: less_induct)
  case less
  from less.prems obtain c cs where s: "s = c # cs" and c: "\<not> isspace c"
    by (cases s) auto
  let ?tok = "c # takeWhile (\<lambda>x. \<not> isspace x) cs"
  let ?rest = "dropWhile (\<lambda>x. \<not> isspace x) cs"
  have split: "s = ?tok @ ?rest" by (simp add: s)
  have tok: "\<forall>x\<in>set ?tok. \<not> isspace x" using c by (auto dest: set_takeWhileD)
  have toks: "ws_tokens s = ?tok # ws_tokens ?rest" using c by (simp add: s)
  have rs: "re_sub_ws_tab s = ?tok @ re_sub_ws_tab ?rest"
    using re_sub_nonspace_prefix[OF tok, of ?rest] split by simp
  show ?case
  proof (cases ?rest)
    case Nil
    show ?thesis unfolding rs toks Nil by simp
  next
    case (Cons sp r')
    have sp: "isspace sp" using hd_dropWhile[of "\<lambda>x. \<not> isspace x" cs] Cons by simp
    let ?r'' = "dropWhile isspace r'"
    have last_s: "last s = last (sp # r')" using split Cons by simp
    with less.prems(3) sp have r'ne: "r' \<noteq> []" by auto
    with last_s less.prems(3) have last_r': "\<not> isspace (last r')" by simp
    then have ex: "\<exists>x\<in>set r'. \<not> isspace x" using r'ne last_in_set by blast
    then have r''ne: "?r'' \<noteq> []" by (simp add: dropWhile_eq_Nil_conv)
    then have hd_r'': "\<not> isspace (hd ?r'')" by (rule hd_dropWhile)
    have "last ?r'' = last r'" using r''ne by (rule last_dropWhile_ne)
    with last_r' have last_r'': "\<not> isspace (last ?r'')" by simp
    have "length ?rest \<le> length cs" by (rule length_dropWhile_le)
    moreover have "length ?r'' \<le> length r'" by (rule length_dropWhile_le)
    ultimately have len: "length ?r'' < length s" using Cons s by simp
    have ih: "re_sub_ws_tab ?r'' = join TAB (ws_tokens ?r'')"
      using less.hyps[OF len r''ne hd_r'' last_r''] .
    have t2: "ws_tokens ?rest = ws_tokens ?r''"
      using sp by (simp add: Cons ws_tokens_dropWhile)
    have ne: "ws_tokens ?r'' \<noteq> []" using r''ne hd_r'' by (rule ws_tokens_hd_nonspace)
    have "re_sub_ws_tab ?rest = TAB # re_sub_ws_tab ?r''" using sp by (simp add: Cons)
    then show ?thesis using ih ne by (simp add: rs toks t2 join_Cons)
  qed
qed

lemma re_sub_strip:
  "strip l \<noteq> [] \<Longrightarrow> re_sub_ws_tab (strip l) = join TAB (ws_tokens l)"
  using re_sub_tokens[of "strip l"] by (simp add: strip_hd strip_last ws_tokens_strip)

lemma split_sep_notin: "sep \<notin> set t \<Longrightarrow> split_sep sep t = [t]"
  by (induction t) auto

lemma split_sep_append: "sep \<notin> set t \<Longrightarrow> split_sep sep (t @ sep # r) = t # split_sep sep r"
  by (induction t) auto

lemma split_join:
  "ts \<noteq> [] \<Longrightarrow> \<forall>t\<in>set ts. sep \<notin> set t \<Longrightarrow> split_sep sep (join sep ts) = ts"
  by (induction sep ts rule: join.induct) (simp_all add: split_sep_notin split_sep_append)

lemma token_no_TAB: "t \<in> set (ws_tokens l) \<Longrightarrow> TAB \<notin> set t"
  using ws_tokens_good[of t l] isspace_TAB by blast

lemma columns_tokens:
  "strip l \<noteq> [] \<Longrightarrow> split_sep TAB (re_sub_ws_tab (strip l)) = ws_tokens l"
proof -
  assume a: "strip l \<noteq> []"
  then have "ws_tokens l \<noteq> []" by (simp add: ws_tokens_Nil_iff strip_Nil_iff)
  then show ?thesis using a by (simp add: re_sub_strip split_join token_no_TAB)
qed

lemma readlines_line: "LF \<notin> set x \<Longrightarrow> readlines (x @ LF # r) = (x @ [LF]) # readlines r"
  by (induction x) auto

lemma readlines_concat:
  "\<forall>x\<in>set xs. LF \<notin> set x \<Longrightarrow> readlines (concat (map (\<lambda>x. x @ [LF]) xs)) = map (\<lambda>x. x @ [LF]) xs"
  by (induction xs) (simp_all add: readlines_line)

lemma universal_newlines_id: "CR \<notin> set s \<Longrightarrow> universal_newlines s = s"
  by (induction s rule: universal_newlines.induct) auto

lemma set_re_sub: "set (re_sub_ws_tab s) \<subseteq> insert TAB {c \<in> set s. \<not> isspace c}"
proof (induction s rule: re_sub_ws_tab.induct)
  case 1
  then show ?case by simp
next
  case (2 c cs)
  show ?case
  proof (cases "isspace c")
    case True
    with 2 have "set (re_sub_ws_tab (dropWhile isspace cs))
        \<subseteq> insert TAB {c \<in> set (dropWhile isspace cs). \<not> isspace c}" by simp
    also have "\<dots> \<subseteq> insert TAB {x \<in> set (c # cs). \<not> isspace x}"
      by (auto dest: set_dropWhileD)
    finally show ?thesis using True by auto
  next
    case False
    with 2 show ?thesis by auto
  qed
qed

lemma re_sub_no_LF: "LF \<notin> set (re_sub_ws_tab s)"
  using set_re_sub[of s] isspace_LF by auto

lemma re_sub_no_CR: "CR \<notin> set (re_sub_ws_tab s)"
  using set_re_sub[of s] isspace_CR by auto

lemma readlines_nonempty: "l \<in> set (readlines s) \<Longrightarrow> l \<noteq> []"
  by (induction s arbitrary: l) (auto split: if_splits list.splits)

lemma readlines_no_inner_LF: "l \<in> set (readlines s) \<Longrightarrow> LF \<notin> set (butlast l)"
proof (induction s arbitrary: l)
  case Nil
  then show ?case by simp
next
  case (Cons c cs)
  show ?case
  proof (cases "c = LF")
    case True
    with Cons show ?thesis by auto
  next
    case False
    show ?thesis
    proof (cases "readlines cs")
      case Nil
      with Cons.prems False show ?thesis by simp
    next
      case rl: (Cons l' ls)
      have l'ne: "l' \<noteq> []" using readlines_nonempty[of l' cs] rl by simp
      from rl Cons.prems False have "l = c # l' \<or> l \<in> set ls" by simp
      then show ?thesis
      proof
        assume "l = c # l'"
        moreover have "LF \<notin> set (butlast l')" using Cons.IH[of l'] rl by simp
        ultimately show ?thesis using False l'ne by simp
      next
        assume "l \<in> set ls"
        then show ?thesis using Cons.IH[of l] rl by simp
      qed
    qed
  qed
qed

lemma set_strip: "set (strip s) \<subseteq> set s"
  unfolding strip_def by (auto dest!: set_dropWhileD)

lemma strip_snoc_space: "isspace x \<Longrightarrow> strip (s @ [x]) = strip s"
proof (cases "\<forall>y\<in>set s. isspace y")
  case True
  assume "isspace x"
  with True have "strip (s @ [x]) = []" "strip s = []" by (simp_all add: strip_Nil_iff)
  then show ?thesis by simp
next
  case False
  assume x: "isspace x"
  from False obtain y where "y \<in> set s" "\<not> isspace y" by blast
  then have "dropWhile isspace (s @ [x]) = dropWhile isspace s @ [x]"
    by (simp add: dropWhile_append1)
  then show ?thesis using x by (simp add: strip_def)
qed

lemma strip_line_no_LF: "l \<in> set (readlines s) \<Longrightarrow> LF \<notin> set (strip l)"
proof -
  assume a: "l \<in> set (readlines s)"
  then have ne: "l \<noteq> []" by (rule readlines_nonempty)
  then have l: "l = butlast l @ [last l]" by simp
  from a have b: "LF \<notin> set (butlast l)" by (rule readlines_no_inner_LF)
  show ?thesis
  proof (cases "last l = LF")
    case True
    then have "strip l = strip (butlast l)"
      using strip_snoc_space[of "last l" "butlast l"] l isspace_LF by simp
    then show ?thesis using b set_strip[of "butlast l"] by auto
  next
    case False
    then have "LF \<notin> set l" using b l by (metis Un_iff empty_iff empty_set set_ConsD set_append)
    then show ?thesis using set_strip[of l] by auto
  qed
qed

lemma process_line_blank: "strip l = [] \<Longrightarrow> process_line l st = st"
  by (simp add: process_line_def)

lemma process_line_main:
  "strip l \<noteq> [] \<Longrightarrow> main_outfile (process_line l st) = main_outfile st @ data_line l"
  by (simp add: process_line_def Let_def data_line_def re_sub_strip)

lemma process_line_extra:
  "strip l \<noteq> [] \<Longrightarrow> extra_outfile (process_line l st) =
     (if 11 \<le> length (ws_tokens l) then extra_outfile st @ side_line l else extra_outfile st)"
  by (simp add: process_line_def Let_def side_line_def columns_tokens)

lemma process_line_printed:
  "strip l \<noteq> [] \<Longrightarrow> printed (process_line l st) =
     (if 11 \<le> length (ws_tokens l) then printed st else printed st @ [short_line_warning l])"
  by (simp add: process_line_def Let_def short_line_warning_def columns_tokens)

lemma tokens_blank: "strip l = [] \<Longrightarrow> ws_tokens l = []"
  by (simp add: strip_Nil_iff ws_tokens_Nil_iff)

lemma fold_process_line_main:
  "main_outfile (fold process_line ls st) =
     main_outfile st @ concat (map data_line (filter (\<lambda>l. strip l \<noteq> []) ls))"
  by (induction ls arbitrary: st) (simp_all add: process_line_blank process_line_main)

lemma fold_process_line_extra:
  "extra_outfile (fold process_line ls st) =
     extra_outfile st @ side_text (filter (\<lambda>l. strip l \<noteq> []) ls)"
  by (induction ls arbitrary: st)
     (simp_all add: process_line_blank process_line_extra side_text_def)

lemma fold_process_line_printed:
  "printed (fold process_line ls st) =
     printed st @ map short_line_warning
       (filter (\<lambda>l. length (ws_tokens l) < 11) (filter (\<lambda>l. strip l \<noteq> []) ls))"
  by (induction ls arbitrary: st)
     (simp_all add: process_line_blank process_line_printed)

lemma open_w_ok:
  "\<forall>e. files w p \<noteq> Faulty e \<Longrightarrow> open_w w p = Inr (w\<lparr>files := (files w)(p := Regular [])\<rparr>)"
  by (cases "files w p") (simp_all add: open_w_def)

lemma open_r_ok: "files w p = Regular c \<Longrightarrow> open_r w p = None"
  by (simp add: open_r_def)

lemma read_text_ok: "files w p = Regular c \<Longrightarrow> read_text w p = universal_newlines c"
  by (simp add: read_text_def)

lemma format_body_normal:
  assumes "files w i = Regular content"
    and "\<forall>e. files w m \<noteq> Faulty e" and "\<forall>e. files w x \<noteq> Faulty e"
  shows "format_body w i m x = (None,
     \<lparr>files = (files w)(m := Regular [], x := Regular (side_text (kept_lines content)),
                          m := Regular (main_text (kept_lines content))),
      stdout = stdout w @
       map short_line_warning (filter (\<lambda>l. length (ws_tokens l) < 11) (kept_lines content)) @
       [str ''Successfully processed '' @ [QUOTE] @ i @ [QUOTE] @ str ''.'',
        str ''  - Main TSV saved to: '' @ [QUOTE] @ m @ [QUOTE],
        str ''  - Extra columns saved to: '' @ [QUOTE] @ x @ [QUOTE]]\<rparr>)"
proof -
  have o1: "open_w w m = Inr (w\<lparr>files := (files w)(m := Regular [])\<rparr>)"
    using assms(2) by (rule open_w_ok)
  have "\<forall>e. files (w\<lparr>files := (files w)(m := Regular [])\<rparr>) x \<noteq> Faulty e"
    using assms(3) by simp
  then have o2: "open_w (w\<lparr>files := (files w)(m := Regular [])\<rparr>) x =
      Inr (w\<lparr>files := (files w)(m := Regular [], x := Regular [])\<rparr>)"
    using open_w_ok[of "w\<lparr>files := (files w)(m := Regular [])\<rparr>" x] by simp
  show ?thesis
    by (simp add: format_body_def open_r_ok[OF assms(1)] read_text_ok[OF assms(1)] o1 o2
        Let_def print_def fold_process_line_main fold_process_line_extra
        fold_process_line_printed kept_lines_def main_text_def)
qed

lemma format_normal:
  assumes "files w i = Regular content"
    and "\<forall>e. files w m \<noteq> Faulty e" and "\<forall>e. files w x \<noteq> Faulty e"
  shows "format_repeatmasker_output w i m x = (None,
     \<lparr>files = (files w)(m := Regular [], x := Regular (side_text (kept_lines content)),
                          m := Regular (main_text (kept_lines content))),
      stdout = stdout w @
       map short_line_warning (filter (\<lambda>l. length (ws_tokens l) < 11) (kept_lines content)) @
       [str ''Successfully processed '' @ [QUOTE] @ i @ [QUOTE] @ str ''.'',
        str ''  - Main TSV saved to: '' @ [QUOTE] @ m @ [QUOTE],
        str ''  - Extra columns saved to: '' @ [QUOTE] @ x @ [QUOTE]]\<rparr>)"
  by (simp add: format_repeatmasker_output_def format_body_normal[OF assms])

lemma set_join: "set (join sep ts) \<subseteq> insert sep (\<Union>(set ` set ts))"
  by (induction sep ts rule: join.induct) auto

lemma data_line_no_inner_LF: "LF \<notin> set (join TAB (ws_tokens l))"
proof
  assume "LF \<in> set (join TAB (ws_tokens l))"
  then obtain t where "t \<in> set (ws_tokens l)" "LF \<in> set t" using set_join[of TAB "ws_tokens l"] by auto
  then show False using ws_tokens_good[of t l] isspace_LF by blast
qed

lemma header_no_LF: "LF \<notin> set (join TAB header)"
  by (simp add: header_def str_def)

lemma header_split: "split_sep TAB (join TAB header) = header"
  by (rule split_join) (simp_all add: header_def str_def)

lemma readlines_main_text:
  "readlines (main_text ls) = (join TAB header @ [LF]) # map data_line ls"
proof -
  have "readlines (concat (map (\<lambda>x. x @ [LF]) (map (\<lambda>l. join TAB (ws_tokens l)) ls)))
      = map (\<lambda>x. x @ [LF]) (map (\<lambda>l. join TAB (ws_tokens l)) ls)"
    by (rule readlines_concat) (simp add: data_line_no_inner_LF)
  then have "readlines (concat (map data_line ls)) = map data_line ls"
    by (simp add: data_line_def[abs_def] comp_def)
  then show ?thesis using readlines_line[OF header_no_LF] by (simp add: main_text_def)
qed

lemma data_line_re_sub: "strip l \<noteq> [] \<Longrightarrow> data_line l = re_sub_ws_tab (strip l) @ [LF]"
  by (simp add: data_line_def re_sub_strip)

section \<open>Stage A: the outputs\<close>

text \<open>
  Claim C1. For an input file that exists, and output paths that can be opened and differ,
  the main output holds the header line followed by one data line per kept line (a line
  after the first three that is not blank when trimmed), in input order. The text splits
  into exactly these lines; the header line has 16 tab-separated columns; and a data line
  is the trimmed line with every run of whitespace replaced by one tab, which is the
  tokens of the line joined by single tabs.
\<close>

theorem main_output_header_and_data_lines:
  assumes "files w input_file = Regular content"
    and "\<forall>e. files w main_output_file \<noteq> Faulty e"
    and "\<forall>e. files w extra_output_file \<noteq> Faulty e"
    and "main_output_file \<noteq> extra_output_file"
  shows "files (snd (format_repeatmasker_output w input_file main_output_file
             extra_output_file)) main_output_file = Regular (main_text (kept_lines content)) \<and>
         readlines (main_text (kept_lines content)) =
           (join TAB header @ [LF]) # map data_line (kept_lines content) \<and>
         split_sep TAB (join TAB header) = header \<and> length header = 16 \<and>
         (\<forall>l\<in>set (kept_lines content). data_line l = re_sub_ws_tab (strip l) @ [LF])"
proof -
  have "files (snd (format_repeatmasker_output w input_file main_output_file
             extra_output_file)) main_output_file = Regular (main_text (kept_lines content))"
    by (simp add: format_normal[OF assms(1-3)])
  moreover have "\<forall>l\<in>set (kept_lines content). data_line l = re_sub_ws_tab (strip l) @ [LF]"
    by (simp add: kept_lines_def data_line_re_sub)
  moreover have "length header = 16" by (simp add: header_def)
  ultimately show ?thesis by (simp add: readlines_main_text header_split)
qed

lemma kept_example: "kept_lines example_report =
    [str ''  x  y '' @ [LF], str ''12  1.2  3  0  seq1  1  10  (90)  +  rnd-1_family  LINE/L1  1  10  (0)  1'' @ [LF], str ''z'']"
  by (simp add: kept_lines_def example_report_def str_def strip_def isspace_def)

theorem main_output_header_and_data_lines_witness:
  "files example_world_A (str ''in'') = Regular example_report \<and>
   files (snd (format_repeatmasker_output example_world_A (str ''in'') (str ''main'')
            (str ''side''))) (str ''main'') =
     Regular (join TAB header @ [LF] @
              str ''x'' @ [TAB] @ str ''y'' @ [LF] @
              join TAB (map str [''12'', ''1.2'', ''3'', ''0'', ''seq1'', ''1'', ''10'', ''(90)'', ''+'',
                ''rnd-1_family'', ''LINE/L1'', ''1'', ''10'', ''(0)'', ''1'']) @ [LF] @
              str ''z'' @ [LF]) \<and>
   length (readlines (main_text (kept_lines example_report))) = 4"
proof -
  have h1: "files example_world_A (str ''in'') = Regular example_report"
    by (simp add: example_world_A_def text_world_def)
  have h2: "\<forall>e. files example_world_A (str ''main'') \<noteq> Faulty e"
    by (simp add: example_world_A_def text_world_def str_def)
  have h3: "\<forall>e. files example_world_A (str ''side'') \<noteq> Faulty e"
    by (simp add: example_world_A_def text_world_def str_def)
  have h4: "str ''main'' \<noteq> str ''side''" by (simp add: str_def)
  have m: "main_text (kept_lines example_report) = join TAB header @ [LF] @
              str ''x'' @ [TAB] @ str ''y'' @ [LF] @
              join TAB (map str [''12'', ''1.2'', ''3'', ''0'', ''seq1'', ''1'', ''10'', ''(90)'', ''+'',
                ''rnd-1_family'', ''LINE/L1'', ''1'', ''10'', ''(0)'', ''1'']) @ [LF] @
              str ''z'' @ [LF]"
    by (simp add: kept_example main_text_def data_line_def str_def isspace_def)
  note t = main_output_header_and_data_lines[OF h1 h2 h3 h4]
  have a: "files (snd (format_repeatmasker_output example_world_A (str ''in'') (str ''main'')
            (str ''side''))) (str ''main'') =
     Regular (join TAB header @ [LF] @
              str ''x'' @ [TAB] @ str ''y'' @ [LF] @
              join TAB (map str [''12'', ''1.2'', ''3'', ''0'', ''seq1'', ''1'', ''10'', ''(90)'', ''+'',
                ''rnd-1_family'', ''LINE/L1'', ''1'', ''10'', ''(0)'', ''1'']) @ [LF] @
              str ''z'' @ [LF])"
    using t m by simp
  have b: "length (readlines (main_text (kept_lines example_report))) = 4"
    using t by (simp add: kept_example)
  show ?thesis by (intro conjI) (rule h1 a b)+
qed

lemma token_no_LF: "t \<in> set (ws_tokens l) \<Longrightarrow> LF \<notin> set t"
  using ws_tokens_good[of t l] isspace_LF by blast

lemma side_line_no_inner_LF:
  "11 \<le> length (ws_tokens l) \<Longrightarrow> LF \<notin> set ((ws_tokens l ! 9) @ [TAB] @ (ws_tokens l ! 10))"
proof -
  assume a: "11 \<le> length (ws_tokens l)"
  then have "ws_tokens l ! 9 \<in> set (ws_tokens l)" "ws_tokens l ! 10 \<in> set (ws_tokens l)"
    by simp_all
  then show ?thesis using token_no_LF by auto
qed

lemma readlines_side_text:
  "readlines (side_text ls) = map side_line (filter (\<lambda>l. 11 \<le> length (ws_tokens l)) ls)"
proof -
  let ?ls = "filter (\<lambda>l. 11 \<le> length (ws_tokens l)) ls"
  have "readlines (concat (map (\<lambda>x. x @ [LF])
            (map (\<lambda>l. (ws_tokens l ! 9) @ [TAB] @ (ws_tokens l ! 10)) ?ls)))
      = map (\<lambda>x. x @ [LF]) (map (\<lambda>l. (ws_tokens l ! 9) @ [TAB] @ (ws_tokens l ! 10)) ?ls)"
    by (rule readlines_concat) (use side_line_no_inner_LF in auto)
  then show ?thesis by (simp add: side_text_def side_line_def[abs_def] comp_def)
qed

text \<open>
  Claim C2. Under the same conditions the side output holds, for every kept line with at
  least 11 tokens and in the order of the main output, the one line made of its tokens 9 and
  10 (counted from 0) with a tab between them; the text splits into exactly these lines. A
  kept line with fewer than 11 tokens adds a warning to the standard output and nothing to
  the side output, and has its data line in the main output like every kept line.
\<close>

theorem side_output_columns_9_and_10:
  assumes "files w input_file = Regular content"
    and "\<forall>e. files w main_output_file \<noteq> Faulty e"
    and "\<forall>e. files w extra_output_file \<noteq> Faulty e"
    and "main_output_file \<noteq> extra_output_file"
  shows "files (snd (format_repeatmasker_output w input_file main_output_file
             extra_output_file)) extra_output_file = Regular (side_text (kept_lines content)) \<and>
         readlines (side_text (kept_lines content)) =
           map side_line (filter (\<lambda>l. 11 \<le> length (ws_tokens l)) (kept_lines content)) \<and>
         stdout (snd (format_repeatmasker_output w input_file main_output_file
             extra_output_file)) =
           stdout w @
           map short_line_warning
             (filter (\<lambda>l. length (ws_tokens l) < 11) (kept_lines content)) @
           [str ''Successfully processed '' @ [QUOTE] @ input_file @ [QUOTE] @ str ''.'',
            str ''  - Main TSV saved to: '' @ [QUOTE] @ main_output_file @ [QUOTE],
            str ''  - Extra columns saved to: '' @ [QUOTE] @ extra_output_file @ [QUOTE]] \<and>
         files (snd (format_repeatmasker_output w input_file main_output_file
             extra_output_file)) main_output_file = Regular (main_text (kept_lines content))"
  using assms(4) by (simp add: format_normal[OF assms(1-3)] readlines_side_text)

theorem side_output_columns_9_and_10_witness:
  "files example_world_A (str ''in'') = Regular example_report \<and>
   files (snd (format_repeatmasker_output example_world_A (str ''in'') (str ''main'')
            (str ''side''))) (str ''side'') =
     Regular (str ''rnd-1_family'' @ [TAB] @ str ''LINE/L1'' @ [LF]) \<and>
   stdout (snd (format_repeatmasker_output example_world_A (str ''in'') (str ''main'')
            (str ''side''))) =
     [str ''Warning: Skipped a line with fewer than 11 columns: '' @ [QUOTE] @ str ''x  y'' @ [QUOTE],
      str ''Warning: Skipped a line with fewer than 11 columns: '' @ [QUOTE] @ str ''z'' @ [QUOTE],
      str ''Successfully processed '' @ [QUOTE] @ str ''in'' @ [QUOTE] @ str ''.'',
      str ''  - Main TSV saved to: '' @ [QUOTE] @ str ''main'' @ [QUOTE],
      str ''  - Extra columns saved to: '' @ [QUOTE] @ str ''side'' @ [QUOTE]]"
proof -
  have h1: "files example_world_A (str ''in'') = Regular example_report"
    by (simp add: example_world_A_def text_world_def)
  have h2: "\<forall>e. files example_world_A (str ''main'') \<noteq> Faulty e"
    by (simp add: example_world_A_def text_world_def str_def)
  have h3: "\<forall>e. files example_world_A (str ''side'') \<noteq> Faulty e"
    by (simp add: example_world_A_def text_world_def str_def)
  have h4: "str ''main'' \<noteq> str ''side''" by (simp add: str_def)
  have s: "side_text (kept_lines example_report) =
      str ''rnd-1_family'' @ [TAB] @ str ''LINE/L1'' @ [LF]"
    by (simp add: kept_example side_text_def side_line_def str_def isspace_def)
  have p: "map short_line_warning
             (filter (\<lambda>l. length (ws_tokens l) < 11) (kept_lines example_report)) =
     [str ''Warning: Skipped a line with fewer than 11 columns: '' @ [QUOTE] @ str ''x  y'' @ [QUOTE],
      str ''Warning: Skipped a line with fewer than 11 columns: '' @ [QUOTE] @ str ''z'' @ [QUOTE]]"
    by (simp add: kept_example short_line_warning_def strip_def str_def isspace_def)
  have o: "stdout example_world_A = []" by (simp add: example_world_A_def text_world_def)
  note t = side_output_columns_9_and_10[OF h1 h2 h3 h4]
  have a: "files (snd (format_repeatmasker_output example_world_A (str ''in'') (str ''main'')
            (str ''side''))) (str ''side'') =
     Regular (str ''rnd-1_family'' @ [TAB] @ str ''LINE/L1'' @ [LF])"
    using t s by simp
  have b: "stdout (snd (format_repeatmasker_output example_world_A (str ''in'') (str ''main'')
            (str ''side''))) =
     [str ''Warning: Skipped a line with fewer than 11 columns: '' @ [QUOTE] @ str ''x  y'' @ [QUOTE],
      str ''Warning: Skipped a line with fewer than 11 columns: '' @ [QUOTE] @ str ''z'' @ [QUOTE],
      str ''Successfully processed '' @ [QUOTE] @ str ''in'' @ [QUOTE] @ str ''.'',
      str ''  - Main TSV saved to: '' @ [QUOTE] @ str ''main'' @ [QUOTE],
      str ''  - Extra columns saved to: '' @ [QUOTE] @ str ''side'' @ [QUOTE]]"
    using t p o by simp
  show ?thesis by (intro conjI) (rule h1 a b)+
qed

lemma ws_tokens_token_then_space:
  "t \<noteq> [] \<Longrightarrow> \<forall>x\<in>set t. \<not> isspace x \<Longrightarrow> isspace sp \<Longrightarrow>
   ws_tokens (t @ sp # r) = t # ws_tokens r"
proof -
  assume t: "t \<noteq> []" and ns: "\<forall>x\<in>set t. \<not> isspace x" and sp: "isspace sp"
  from t obtain c cs where tc: "t = c # cs" by (cases t) auto
  have "takeWhile (\<lambda>x. \<not> isspace x) (cs @ sp # r) = cs"
    using ns sp tc by (simp add: takeWhile_append2)
  moreover have "dropWhile (\<lambda>x. \<not> isspace x) (cs @ sp # r) = sp # r"
    using ns sp tc by (simp add: dropWhile_append2)
  ultimately show ?thesis using ns sp tc by simp
qed

lemma ws_tokens_join:
  "ts \<noteq> [] \<Longrightarrow> \<forall>t\<in>set ts. t \<noteq> [] \<and> (\<forall>x\<in>set t. \<not> isspace x) \<Longrightarrow>
   ws_tokens (join TAB ts @ [LF]) = ts"
proof (induction TAB ts rule: join.induct)
  case 1
  then show ?case by simp
next
  case (2 p)
  then show ?case using ws_tokens_token_then_space[of p LF "[]"] isspace_LF by simp
next
  case (3 p q ps)
  have "ws_tokens (p @ TAB # (join TAB (q # ps) @ [LF])) = p # ws_tokens (join TAB (q # ps) @ [LF])"
    using 3(3) isspace_TAB by (intro ws_tokens_token_then_space) simp_all
  then show ?case using 3 by simp
qed

lemma ws_tokens_data_line: "strip l \<noteq> [] \<Longrightarrow> ws_tokens (data_line l) = ws_tokens l"
proof -
  assume "strip l \<noteq> []"
  then have "ws_tokens l \<noteq> []" by (simp add: ws_tokens_Nil_iff strip_Nil_iff)
  then show ?thesis unfolding data_line_def
    by (rule ws_tokens_join) (use ws_tokens_good in blast)
qed

lemma strip_data_line: "strip l \<noteq> [] \<Longrightarrow> strip (data_line l) \<noteq> []"
proof -
  assume a: "strip l \<noteq> []"
  then have "ws_tokens (data_line l) \<noteq> []"
    by (simp add: ws_tokens_data_line ws_tokens_Nil_iff strip_Nil_iff)
  then show ?thesis by (simp add: ws_tokens_Nil_iff strip_Nil_iff)
qed

lemma token_no_CR: "t \<in> set (ws_tokens l) \<Longrightarrow> CR \<notin> set t"
  using ws_tokens_good[of t l] isspace_CR by blast

lemma data_line_no_CR: "CR \<notin> set (data_line l)"
proof
  assume "CR \<in> set (data_line l)"
  then have "CR \<in> set (join TAB (ws_tokens l))" by (simp add: data_line_def)
  then obtain t where "t \<in> set (ws_tokens l)" "CR \<in> set t"
    using set_join[of TAB "ws_tokens l"] by auto
  then show False using token_no_CR by blast
qed

lemma dropWhile_until: "y \<notin> set xs \<Longrightarrow> dropWhile (\<lambda>c. c \<noteq> y) (xs @ y # ys) = y # ys"
  by (induction xs) auto

lemma remove_first_line_main_text: "remove_first_line (main_text ls) = concat (map data_line ls)"
proof -
  have "dropWhile (\<lambda>c. c \<noteq> LF) (join TAB header @ LF # concat (map data_line ls))
      = LF # concat (map data_line ls)"
    using header_no_LF by (rule dropWhile_until)
  then show ?thesis by (simp add: remove_first_line_def main_text_def)
qed

lemma readlines_data_lines: "readlines (concat (map data_line ls)) = map data_line ls"
  using readlines_main_text[of ls] readlines_line[OF header_no_LF, of "concat (map data_line ls)"]
  by (simp add: main_text_def)

lemma kept_lines_data_lines:
  assumes "\<forall>l\<in>set ls. strip l \<noteq> []"
  shows "kept_lines (concat (map data_line ls)) = map data_line (drop 3 ls)"
proof -
  have "CR \<notin> set (concat (map data_line ls))" using data_line_no_CR by auto
  then have u: "universal_newlines (concat (map data_line ls)) = concat (map data_line ls)"
    by (rule universal_newlines_id)
  have "\<forall>l\<in>set (drop 3 ls). strip (data_line l) \<noteq> []"
    using assms strip_data_line by (auto dest: in_set_dropD)
  then have "filter (\<lambda>l. strip l \<noteq> []) (map data_line (drop 3 ls)) = map data_line (drop 3 ls)"
    by (simp add: filter_map comp_def)
  then show ?thesis by (simp add: kept_lines_def u readlines_data_lines drop_map)
qed

lemma side_text_data_lines:
  assumes "\<forall>l\<in>set ls. strip l \<noteq> []"
  shows "side_text (map data_line ls) = side_text ls"
  using assms by (induction ls) (simp_all add: side_text_def side_line_def ws_tokens_data_line)

lemma kept_lines_nonblank: "\<forall>l\<in>set (kept_lines content). strip l \<noteq> []"
  by (simp add: kept_lines_def)

lemma text_world_file: "files (text_world [(p, c)]) p = Regular c"
  by (simp add: text_world_def)

lemma text_world_not_faulty: "\<forall>e. files (text_world fs) p \<noteq> Faulty e"
  by (simp add: text_world_def split: option.splits)

lemma side_example: "side_text (kept_lines example_report) =
    str ''rnd-1_family'' @ [TAB] @ str ''LINE/L1'' @ [LF]"
  by (simp add: kept_example side_text_def side_line_def str_def isspace_def)

text \<open>
  Claim C3 fails as stated: the second run discards the first three lines of its input like
  any run, and these are now data lines. On the example the first run writes one side line,
  from the second of its three data lines, and the second run, given these three data lines,
  writes none.
\<close>

theorem rerun_side_output_counterexample:
  "files (snd (format_repeatmasker_output example_world_A (str ''in'') (str ''main'')
            (str ''side''))) (str ''main'') = Regular (main_text (kept_lines example_report)) \<and>
   files (snd (format_repeatmasker_output example_world_A (str ''in'') (str ''main'')
            (str ''side''))) (str ''side'') =
     Regular (str ''rnd-1_family'' @ [TAB] @ str ''LINE/L1'' @ [LF]) \<and>
   files (snd (format_repeatmasker_output
            (text_world [(str ''in2'', remove_first_line (main_text (kept_lines example_report)))])
            (str ''in2'') (str ''main2'') (str ''side2''))) (str ''side2'') = Regular []"
proof -
  have h1: "files example_world_A (str ''in'') = Regular example_report"
    by (simp add: example_world_A_def text_world_def)
  have h2: "\<forall>e. files example_world_A p \<noteq> Faulty e" for p
    unfolding example_world_A_def by (rule text_world_not_faulty)
  have ne: "str ''main'' \<noteq> str ''side''" "str ''main2'' \<noteq> str ''side2''"
    by (simp_all add: str_def)
  have "kept_lines (remove_first_line (main_text (kept_lines example_report))) =
      map data_line (drop 3 (kept_lines example_report))"
    by (simp add: remove_first_line_main_text kept_lines_data_lines kept_lines_nonblank)
  then have k: "kept_lines (remove_first_line (main_text (kept_lines example_report))) = []"
    by (simp add: kept_example)
  have e: "side_text [] = []" by (simp add: side_text_def)
  show ?thesis
    using ne
    by (simp add: format_normal[OF h1 h2 h2] format_normal[OF text_world_file
        text_world_not_faulty text_world_not_faulty] k side_example e)
qed

text \<open>
  Claim C3, amended. When a second run reads the main output of a first run with its header
  line removed, it writes the side lines of the first run except those that came from the
  first three data lines: its side output is the side output of the kept lines of the first
  run without their first three, each line with the same two fields as in the first run.
\<close>

theorem rerun_side_output_drops_three:
  assumes "files w input_file = Regular content"
    and "\<forall>e. files w main_output_file \<noteq> Faulty e"
    and "\<forall>e. files w extra_output_file \<noteq> Faulty e"
    and "main_output_file \<noteq> extra_output_file"
    and "files (snd (format_repeatmasker_output w input_file main_output_file
             extra_output_file)) main_output_file = Regular main1"
    and "files w2 input_file2 = Regular (remove_first_line main1)"
    and "\<forall>e. files w2 main_output_file2 \<noteq> Faulty e"
    and "\<forall>e. files w2 extra_output_file2 \<noteq> Faulty e"
    and "main_output_file2 \<noteq> extra_output_file2"
  shows "files (snd (format_repeatmasker_output w input_file main_output_file
             extra_output_file)) extra_output_file = Regular (side_text (kept_lines content)) \<and>
         files (snd (format_repeatmasker_output w2 input_file2 main_output_file2
             extra_output_file2)) extra_output_file2 =
           Regular (side_text (drop 3 (kept_lines content)))"
proof -
  have m1: "main1 = main_text (kept_lines content)"
    using assms(5) by (simp add: format_normal[OF assms(1-3)])
  have k: "kept_lines (remove_first_line main1) = map data_line (drop 3 (kept_lines content))"
    by (simp add: m1 remove_first_line_main_text kept_lines_data_lines kept_lines_nonblank)
  have "\<forall>l\<in>set (drop 3 (kept_lines content)). strip l \<noteq> []"
    using kept_lines_nonblank by (auto dest: in_set_dropD)
  then have s: "side_text (map data_line (drop 3 (kept_lines content))) =
      side_text (drop 3 (kept_lines content))"
    by (rule side_text_data_lines)
  show ?thesis
    using assms(4) assms(9)
    by (simp add: format_normal[OF assms(1-3)] format_normal[OF assms(6-8)] k s)
qed

lemma kept_example_B: "kept_lines example_report_B =
    [str ''a'' @ [LF], str ''b'' @ [LF], str ''c'' @ [LF],
     str ''12  1.2  3  0  seq1  1  10  (90)  +  rnd-1_family  LINE/L1  1  10  (0)  1'' @ [LF]]"
  by (simp add: kept_lines_def example_report_B_def str_def strip_def isspace_def)

lemma side_example_B: "side_text (drop 3 (kept_lines example_report_B)) =
    str ''rnd-1_family'' @ [TAB] @ str ''LINE/L1'' @ [LF]"
  by (simp add: kept_example_B side_text_def side_line_def str_def isspace_def)

theorem rerun_side_output_drops_three_witness:
  "files example_world_B (str ''in'') = Regular example_report_B \<and>
   files (snd (format_repeatmasker_output example_world_B (str ''in'') (str ''main'')
            (str ''side''))) (str ''main'') = Regular (main_text (kept_lines example_report_B)) \<and>
   files (snd (format_repeatmasker_output
            (text_world [(str ''in2'', remove_first_line (main_text (kept_lines example_report_B)))])
            (str ''in2'') (str ''main2'') (str ''side2''))) (str ''side2'') =
     Regular (str ''rnd-1_family'' @ [TAB] @ str ''LINE/L1'' @ [LF])"
proof -
  have h1: "files example_world_B (str ''in'') = Regular example_report_B"
    by (simp add: example_world_B_def text_world_def)
  have h2: "\<forall>e. files example_world_B p \<noteq> Faulty e" for p
    unfolding example_world_B_def by (rule text_world_not_faulty)
  have ne: "str ''main'' \<noteq> str ''side''" "str ''main2'' \<noteq> str ''side2''"
    by (simp_all add: str_def)
  have h5: "files (snd (format_repeatmasker_output example_world_B (str ''in'') (str ''main'')
            (str ''side''))) (str ''main'') = Regular (main_text (kept_lines example_report_B))"
    by (simp add: format_normal[OF h1 h2 h2])
  note t = rerun_side_output_drops_three[OF h1 h2 h2 ne(1) h5 text_world_file
      text_world_not_faulty text_world_not_faulty ne(2)]
  have a: "files (snd (format_repeatmasker_output
            (text_world [(str ''in2'', remove_first_line (main_text (kept_lines example_report_B)))])
            (str ''in2'') (str ''main2'') (str ''side2''))) (str ''side2'') =
     Regular (str ''rnd-1_family'' @ [TAB] @ str ''LINE/L1'' @ [LF])"
    using t side_example_B by simp
  show ?thesis by (intro conjI) (rule h1 h5 a)+
qed

lemma format_body_missing:
  "files w input_file = Absent \<Longrightarrow>
   format_body w input_file m x = (Some (FileNotFoundError input_file), w)"
  by (simp add: format_body_def open_r_def)

lemma format_returns: "fst (format_repeatmasker_output w i m x) = None"
  by (simp add: format_repeatmasker_output_def split: prod.splits option.splits exn.splits)

section \<open>Stage A: errors\<close>

text \<open>
  Claim C9. When the input file does not exist, the function prints that the file was not
  found and returns, and the files are as they were: no output file is created or written.
  In every world the function returns (no exception leaves it), and when its \<^verbatim>\<open>try\<close> block
  raises an exception other than \<^verbatim>\<open>FileNotFoundError\<close>, the function prints the text of the
  exception after \<^verbatim>\<open>An error occurred:\<close> and changes nothing else.
\<close>

theorem missing_input_reported_errors_caught:
  "(files w input_file = Absent \<longrightarrow>
      format_repeatmasker_output w input_file main_output_file extra_output_file =
        (None, w\<lparr>stdout := stdout w @
                 [str ''Error: The file '' @ [QUOTE] @ input_file @ [QUOTE] @
                  str '' was not found.'']\<rparr>)) \<and>
   fst (format_repeatmasker_output w input_file main_output_file extra_output_file) = None \<and>
   (\<forall>msg w'. format_body w input_file main_output_file extra_output_file =
                (Some (OtherException msg), w') \<longrightarrow>
      format_repeatmasker_output w input_file main_output_file extra_output_file =
        (None, w'\<lparr>stdout := stdout w' @ [str ''An error occurred: '' @ msg]\<rparr>))"
proof (intro conjI impI allI)
  assume "files w input_file = Absent"
  then show "format_repeatmasker_output w input_file main_output_file extra_output_file =
        (None, w\<lparr>stdout := stdout w @
                 [str ''Error: The file '' @ [QUOTE] @ input_file @ [QUOTE] @
                  str '' was not found.'']\<rparr>)"
    by (simp add: format_repeatmasker_output_def format_body_missing print_def)
next
  show "fst (format_repeatmasker_output w input_file main_output_file extra_output_file) = None"
    by (rule format_returns)
next
  fix msg w'
  assume "format_body w input_file main_output_file extra_output_file =
                (Some (OtherException msg), w')"
  then show "format_repeatmasker_output w input_file main_output_file extra_output_file =
        (None, w'\<lparr>stdout := stdout w' @ [str ''An error occurred: '' @ msg]\<rparr>)"
    by (simp add: format_repeatmasker_output_def print_def)
qed

theorem missing_input_reported_errors_caught_witness:
  "files (text_world []) (str ''in'') = Absent \<and>
   format_repeatmasker_output (text_world []) (str ''in'') (str ''main'') (str ''side'') =
     (None, (text_world [])\<lparr>stdout :=
        [str ''Error: The file '' @ [QUOTE] @ str ''in'' @ [QUOTE] @ str '' was not found.'']\<rparr>) \<and>
   format_body example_world_denied (str ''in'') (str ''main'') (str ''side'') =
     (Some (OtherException (str ''[Errno 13] Permission denied'')), example_world_denied) \<and>
   format_repeatmasker_output example_world_denied (str ''in'') (str ''main'') (str ''side'') =
     (None, example_world_denied\<lparr>stdout :=
        [str ''An error occurred: '' @ str ''[Errno 13] Permission denied'']\<rparr>)"
proof -
  have h1: "files (text_world []) (str ''in'') = Absent" by (simp add: text_world_def)
  have o1: "stdout (text_world []) = []" by (simp add: text_world_def)
  have h2: "format_body example_world_denied (str ''in'') (str ''main'') (str ''side'') =
     (Some (OtherException (str ''[Errno 13] Permission denied'')), example_world_denied)"
    by (simp add: format_body_def open_r_def example_world_denied_def)
  have o2: "stdout example_world_denied = []" by (simp add: example_world_denied_def)
  note t1 = missing_input_reported_errors_caught[of "text_world []" "str ''in''"
      "str ''main''" "str ''side''"]
  note t2 = missing_input_reported_errors_caught[of example_world_denied "str ''in''"
      "str ''main''" "str ''side''"]
  have a: "format_repeatmasker_output (text_world []) (str ''in'') (str ''main'') (str ''side'') =
     (None, (text_world [])\<lparr>stdout :=
        [str ''Error: The file '' @ [QUOTE] @ str ''in'' @ [QUOTE] @ str '' was not found.'']\<rparr>)"
    using t1 h1 o1 by simp
  have b: "format_repeatmasker_output example_world_denied (str ''in'') (str ''main'') (str ''side'') =
     (None, example_world_denied\<lparr>stdout :=
        [str ''An error occurred: '' @ str ''[Errno 13] Permission denied'']\<rparr>)"
    using t2 h2 o2 by simp
  show ?thesis by (intro conjI) (rule h1 a h2 b)+
qed

lemma dropWhile_hd_id: "xs \<noteq> [] \<Longrightarrow> \<not> P (hd xs) \<Longrightarrow> dropWhile P xs = xs"
  by (cases xs) simp_all

lemma strip_idem: "strip (strip s) = strip s"
proof (cases "strip s = []")
  case True
  have "strip [] = []" by (simp add: strip_def)
  with True show ?thesis by simp
next
  case False
  let ?t = "strip s"
  have d: "dropWhile isspace ?t = ?t"
    using False strip_hd[OF False] by (rule dropWhile_hd_id)
  have "rev ?t \<noteq> []" using False by simp
  moreover have "\<not> isspace (hd (rev ?t))" using False strip_last[OF False] by (simp add: hd_rev)
  ultimately have r: "dropWhile isspace (rev ?t) = rev ?t" by (rule dropWhile_hd_id)
  show ?thesis unfolding strip_def[of ?t] d r by simp
qed

lemma read_family_line_unfold:
  "read_family_line l st =
     (if strip l = [] then st
      else (case split_sep TAB (strip l) of
              [motif, family] \<Rightarrow>
                st\<lparr>motif_to_family := AList.update motif family (motif_to_family st)\<rparr>
            | _ \<Rightarrow> st\<lparr>lookup_printed := lookup_printed st @ [malformed_warning l]\<rparr>))"
  by (simp add: read_family_line_def Let_def strip_idem malformed_warning_def
      cong: list.case_cong)

lemma family_entry_blank: "strip l = [] \<Longrightarrow> family_entry l = None"
  by (simp add: family_entry_def)

lemma read_family_line_cases:
  "read_family_line l st =
     (case family_entry l of
        Some (motif, family) \<Rightarrow>
          st\<lparr>motif_to_family := AList.update motif family (motif_to_family st)\<rparr>
      | None \<Rightarrow> if malformed l
                then st\<lparr>lookup_printed := lookup_printed st @ [malformed_warning l]\<rparr>
                else st)"
proof (cases "strip l = []")
  case True
  then show ?thesis
    by (simp add: read_family_line_unfold family_entry_blank malformed_def)
next
  case False
  show ?thesis
  proof (cases "family_entry l")
    case None
    then have "malformed l" using False by (simp add: malformed_def)
    moreover have "read_family_line l st =
        st\<lparr>lookup_printed := lookup_printed st @ [malformed_warning l]\<rparr>"
      using None False unfolding read_family_line_unfold family_entry_def
      by (simp split: list.splits)
    ultimately show ?thesis using None by simp
  next
    case (Some e)
    then obtain motif family where e: "family_entry l = Some (motif, family)" by (cases e) simp
    then have "split_sep TAB (strip l) = [motif, family]"
      unfolding family_entry_def by (simp split: list.splits)
    then show ?thesis using e False by (simp add: read_family_line_unfold)
  qed
qed

lemma map_upd_add: "m(k \<mapsto> v) ++ n = m ++ ([k \<mapsto> v] ++ n)"
proof -
  have "m(k \<mapsto> v) = m ++ [k \<mapsto> v]" by simp
  then show ?thesis by (simp only: map_add_assoc)
qed

lemma fold_read_family_map:
  "map_of (motif_to_family (fold read_family_line ls st)) =
     map_of (motif_to_family st) ++ map_of (rev (family_entries ls))"
proof (induction ls arbitrary: st)
  case Nil
  then show ?case by (simp add: family_entries_def map_filter_simps)
next
  case (Cons l ls)
  have ih: "map_of (motif_to_family (fold read_family_line (l # ls) st)) =
      map_of (motif_to_family (read_family_line l st)) ++ map_of (rev (family_entries ls))"
    using Cons.IH[of "read_family_line l st"] by simp
  show ?case
  proof (cases "family_entry l")
    case None
    then have "motif_to_family (read_family_line l st) = motif_to_family st"
      by (simp add: read_family_line_cases[of l st])
    moreover have "family_entries (l # ls) = family_entries ls"
      using None by (simp add: family_entries_def map_filter_simps)
    ultimately show ?thesis using ih by simp
  next
    case (Some e)
    then obtain motif family where e: "family_entry l = Some (motif, family)" by (cases e) simp
    then have "motif_to_family (read_family_line l st) =
        AList.update motif family (motif_to_family st)"
      by (simp add: read_family_line_cases[of l st])
    then have a: "map_of (motif_to_family (read_family_line l st)) =
        (map_of (motif_to_family st))(motif \<mapsto> family)"
      by (simp add: update_conv')
    have "family_entries (l # ls) = (motif, family) # family_entries ls"
      using e by (simp add: family_entries_def map_filter_simps)
    then have b: "map_of (rev (family_entries (l # ls))) =
        [motif \<mapsto> family] ++ map_of (rev (family_entries ls))"
      by simp
    show ?thesis unfolding ih a b by (rule map_upd_add)
  qed
qed






section \<open>Stage B: the lookup\<close>




lemma add_family_body_empty_lookup:
  assumes "files w family_list_file = Regular ftext"
    and "motif_to_family (build_lookup ftext) = []"
  shows "add_family_body rt w gff_input_file family_list_file output_file =
     (None, w\<lparr>stdout := stdout w @
        [str ''Reading TE family map from '' @ [QUOTE] @ family_list_file @ [QUOTE] @
         str ''...''] @
        lookup_printed (build_lookup ftext) @
        [[LF] @ str ''Error: The family lookup dictionary is empty. Please check your family list file.'']\<rparr>)"
proof -
  let ?w1 = "print (str ''Reading TE family map from '' @ [QUOTE] @ family_list_file @
                      [QUOTE] @ str ''...'') w"
  have f: "files ?w1 family_list_file = Regular ftext" using assms(1) by (simp add: print_def)
  have r: "open_r ?w1 family_list_file = None"
    "read_text ?w1 family_list_file = universal_newlines ftext"
    using f by (simp_all add: open_r_ok read_text_ok)
  show ?thesis
    unfolding add_family_body_def Let_def r
    using assms(2) by (simp add: build_lookup_def print_def)
qed

section \<open>Stage B: errors\<close>

text \<open>
  Claim C8. When the lookup file can be read and the dictionary built from it is empty,
  the function prints the error and returns: the result is the initial world with four
  kinds of text added to the standard output (the start line, the reading line, the
  warnings of the lookup file, the error). The files are as they were, whatever the GFF
  path and the output path name: neither is opened, the output file is not created.
\<close>

theorem empty_lookup_aborts_before_gff:
  assumes "files w family_list_file = Regular ftext"
    and "motif_to_family (build_lookup ftext) = []"
  shows "add_family_column rt w gff_input_file family_list_file output_file =
     (None, w\<lparr>stdout := stdout w @
        [str ''--- Starting Process ---'',
         str ''Reading TE family map from '' @ [QUOTE] @ family_list_file @ [QUOTE] @
         str ''...''] @
        lookup_printed (build_lookup ftext) @
        [[LF] @ str ''Error: The family lookup dictionary is empty. Please check your family list file.'']\<rparr>) \<and>
     files (snd (add_family_column rt w gff_input_file family_list_file output_file)) = files w"
proof -
  let ?w0 = "print (str ''--- Starting Process ---'') w"
  have f: "files ?w0 family_list_file = Regular ftext" using assms(1) by (simp add: print_def)
  note b = add_family_body_empty_lookup[OF f assms(2), of rt gff_input_file output_file]
  show ?thesis unfolding add_family_column_def b by (simp add: print_def)
qed

lemma example_lookup_bad_built:
  "build_lookup example_lookup_bad =
     \<lparr>motif_to_family = [],
      lookup_printed = [str ''Warning: Skipping malformed line in family list: '' @ [QUOTE] @
                        str ''no tab here'' @ [QUOTE]]\<rparr>"
  by (simp add: build_lookup_def example_lookup_bad_def read_family_line_def strip_def
      isspace_def str_def)

theorem empty_lookup_aborts_before_gff_witness:
  "files (text_world [(str ''fam'', example_lookup_bad)]) (str ''fam'') =
     Regular example_lookup_bad \<and>
   motif_to_family (build_lookup example_lookup_bad) = [] \<and>
   files (text_world [(str ''fam'', example_lookup_bad)]) (str ''gff'') = Absent \<and>
   add_family_column example_runtime (text_world [(str ''fam'', example_lookup_bad)])
       (str ''gff'') (str ''fam'') (str ''out'') =
     (None, (text_world [(str ''fam'', example_lookup_bad)])\<lparr>stdout :=
        [str ''--- Starting Process ---'',
         str ''Reading TE family map from '' @ [QUOTE] @ str ''fam'' @ [QUOTE] @ str ''...'',
         str ''Warning: Skipping malformed line in family list: '' @ [QUOTE] @
           str ''no tab here'' @ [QUOTE],
         [LF] @ str ''Error: The family lookup dictionary is empty. Please check your family list file.'']\<rparr>)"
proof -
  have h1: "files (text_world [(str ''fam'', example_lookup_bad)]) (str ''fam'') =
     Regular example_lookup_bad" by (rule text_world_file)
  have h2: "motif_to_family (build_lookup example_lookup_bad) = []"
    by (simp add: example_lookup_bad_built)
  have g: "files (text_world [(str ''fam'', example_lookup_bad)]) (str ''gff'') = Absent"
    by (simp add: text_world_def str_def)
  have o: "stdout (text_world [(str ''fam'', example_lookup_bad)]) = []"
    by (simp add: text_world_def)
  note t = empty_lookup_aborts_before_gff[OF h1 h2, of example_runtime "str ''gff''"
      "str ''out''"]
  have a: "add_family_column example_runtime (text_world [(str ''fam'', example_lookup_bad)])
       (str ''gff'') (str ''fam'') (str ''out'') =
     (None, (text_world [(str ''fam'', example_lookup_bad)])\<lparr>stdout :=
        [str ''--- Starting Process ---'',
         str ''Reading TE family map from '' @ [QUOTE] @ str ''fam'' @ [QUOTE] @ str ''...'',
         str ''Warning: Skipping malformed line in family list: '' @ [QUOTE] @
           str ''no tab here'' @ [QUOTE],
         [LF] @ str ''Error: The family lookup dictionary is empty. Please check your family list file.'']\<rparr>)"
    using t o by (simp add: example_lookup_bad_built)
  show ?thesis by (intro conjI) (rule h1 h2 g a)+
qed

lemma annotate_line_skip: "\<not> qualifies l \<Longrightarrow> annotate_line d l st = st"
  by (auto simp: annotate_line_def qualifies_def Let_def)

lemma annotate_line_outfile:
  "qualifies l \<Longrightarrow> outfile (annotate_line d l st) = outfile st @ annotated d l"
  by (auto simp: annotate_line_def qualifies_def Let_def annotated_def resolved_label_def
      split: option.splits)

lemma fold_annotate_outfile:
  "outfile (fold (annotate_line d) ls st) = outfile st @ annotated_text d ls"
proof (induction ls arbitrary: st)
  case Nil
  then show ?case by (simp add: annotated_text_def)
next
  case (Cons l ls)
  show ?case
  proof (cases "qualifies l")
    case True
    then show ?thesis using Cons.IH[of "annotate_line d l st"]
      by (simp add: annotate_line_outfile annotated_text_def)
  next
    case False
    then show ?thesis using Cons.IH[of st]
      by (simp add: annotate_line_skip annotated_text_def)
  qed
qed

lemma length_Motif: "length (str ''Motif:'') = 6"
  by (simp add: str_def)

lemma startswith_iff: "startswith s p \<longleftrightarrow> (\<exists>post. s = p @ post)"
proof
  assume "startswith s p"
  then have "s = p @ drop (length p) s"
    unfolding startswith_def by (metis append_take_drop_id)
  then show "\<exists>post. s = p @ post" ..
next
  assume "\<exists>post. s = p @ post"
  then show "startswith s p" by (auto simp: startswith_def)
qed

lemma takeWhile_nonempty_hd: "takeWhile P xs \<noteq> [] \<Longrightarrow> xs \<noteq> [] \<and> P (hd xs)"
  by (cases xs) (auto split: if_splits)

lemma re_search_motif_Some:
  "re_search_motif s = Some g \<Longrightarrow>
   \<exists>pre post. s = pre @ str ''Motif:'' @ g @ post \<and> g \<noteq> [] \<and> (\<forall>c\<in>set g. motif_char c) \<and>
     (post = [] \<or> \<not> motif_char (hd post))"
proof (induction s)
  case Nil
  then show ?case by simp
next
  case (Cons c cs)
  let ?s = "c # cs"
  let ?g = "takeWhile motif_char (drop 6 ?s)"
  show ?case
  proof (cases "startswith ?s (str ''Motif:'') \<and> ?g \<noteq> []")
    case True
    then have g: "g = ?g" using Cons.prems by (simp add: Let_def)
    from True obtain post0 where p0: "?s = str ''Motif:'' @ post0"
      using startswith_iff by blast
    then have "drop 6 ?s = post0" using length_Motif by (metis append_eq_conv_conj)
    then have "post0 = ?g @ dropWhile motif_char (drop 6 ?s)" by simp
    then have "?s = [] @ str ''Motif:'' @ g @ dropWhile motif_char (drop 6 ?s)"
      using p0 g by simp
    moreover have "g \<noteq> []" using True g by simp
    moreover have "\<forall>c\<in>set g. motif_char c" using g by (auto dest: set_takeWhileD)
    moreover have "dropWhile motif_char (drop 6 ?s) = [] \<or>
        \<not> motif_char (hd (dropWhile motif_char (drop 6 ?s)))"
      using hd_dropWhile[of motif_char "drop 6 ?s"] by blast
    ultimately show ?thesis by blast
  next
    case False
    then have "re_search_motif cs = Some g" using Cons.prems by (auto simp: Let_def)
    then obtain pre post where "cs = pre @ str ''Motif:'' @ g @ post" "g \<noteq> []"
      "\<forall>c\<in>set g. motif_char c" "post = [] \<or> \<not> motif_char (hd post)"
      using Cons.IH by blast
    then have "?s = (c # pre) @ str ''Motif:'' @ g @ post" by simp
    then show ?thesis
      using \<open>g \<noteq> []\<close> \<open>\<forall>c\<in>set g. motif_char c\<close> \<open>post = [] \<or> \<not> motif_char (hd post)\<close>
      by blast
  qed
qed

lemma re_search_motif_None_iff:
  "re_search_motif s = None \<longleftrightarrow>
   (\<forall>pre c post. s = pre @ str ''Motif:'' @ c # post \<longrightarrow> \<not> motif_char c)"
proof (induction s)
  case Nil
  then show ?case by (simp add: str_def)
next
  case (Cons a cs)
  let ?s = "a # cs"
  let ?g = "takeWhile motif_char (drop 6 ?s)"
  have here: "(startswith ?s (str ''Motif:'') \<and> ?g \<noteq> []) \<longleftrightarrow>
      (\<exists>c post. ?s = str ''Motif:'' @ c # post \<and> motif_char c)"
  proof
    assume h: "startswith ?s (str ''Motif:'') \<and> ?g \<noteq> []"
    then obtain post0 where p0: "?s = str ''Motif:'' @ post0" using startswith_iff by blast
    then have d: "drop 6 ?s = post0" using length_Motif by (metis append_eq_conv_conj)
    with h have "post0 \<noteq> [] \<and> motif_char (hd post0)"
      using takeWhile_nonempty_hd[of motif_char post0] by simp
    then obtain c post where "post0 = c # post" "motif_char c" by (cases post0) auto
    with p0 show "\<exists>c post. ?s = str ''Motif:'' @ c # post \<and> motif_char c" by blast
  next
    assume "\<exists>c post. ?s = str ''Motif:'' @ c # post \<and> motif_char c"
    then obtain c post where e: "?s = str ''Motif:'' @ c # post" and c: "motif_char c" by blast
    then have "startswith ?s (str ''Motif:'')" using startswith_iff by blast
    moreover have "drop 6 ?s = c # post" using e length_Motif by (metis append_eq_conv_conj)
    ultimately show "startswith ?s (str ''Motif:'') \<and> ?g \<noteq> []" using c by simp
  qed
  have later: "(\<exists>pre c post. cs = pre @ str ''Motif:'' @ c # post \<and> motif_char c) \<longleftrightarrow>
      (\<exists>pre c post. ?s = (a # pre) @ str ''Motif:'' @ c # post \<and> motif_char c)"
    by simp
  have split: "(\<exists>pre c post. ?s = pre @ str ''Motif:'' @ c # post \<and> motif_char c) \<longleftrightarrow>
      (\<exists>c post. ?s = str ''Motif:'' @ c # post \<and> motif_char c) \<or>
      (\<exists>pre c post. cs = pre @ str ''Motif:'' @ c # post \<and> motif_char c)"
  proof
    assume "\<exists>pre c post. ?s = pre @ str ''Motif:'' @ c # post \<and> motif_char c"
    then obtain pre c post where e: "?s = pre @ str ''Motif:'' @ c # post" and c: "motif_char c"
      by blast
    show "(\<exists>c post. ?s = str ''Motif:'' @ c # post \<and> motif_char c) \<or>
      (\<exists>pre c post. cs = pre @ str ''Motif:'' @ c # post \<and> motif_char c)"
    proof (cases pre)
      case Nil
      with e c show ?thesis by auto
    next
      case (Cons b pre')
      with e have "cs = pre' @ str ''Motif:'' @ c # post" by simp
      with c show ?thesis by blast
    qed
  next
    assume "(\<exists>c post. ?s = str ''Motif:'' @ c # post \<and> motif_char c) \<or>
      (\<exists>pre c post. cs = pre @ str ''Motif:'' @ c # post \<and> motif_char c)"
    then show "\<exists>pre c post. ?s = pre @ str ''Motif:'' @ c # post \<and> motif_char c"
    proof
      assume "\<exists>c post. ?s = str ''Motif:'' @ c # post \<and> motif_char c"
      then obtain c post where "?s = [] @ str ''Motif:'' @ c # post" "motif_char c" by auto
      then show ?thesis by blast
    next
      assume "\<exists>pre c post. cs = pre @ str ''Motif:'' @ c # post \<and> motif_char c"
      then obtain pre c post where "cs = pre @ str ''Motif:'' @ c # post" "motif_char c" by blast
      then have "?s = (a # pre) @ str ''Motif:'' @ c # post" by simp
      then show ?thesis using \<open>motif_char c\<close> by blast
    qed
  qed
  have "re_search_motif ?s = None \<longleftrightarrow>
      \<not> (startswith ?s (str ''Motif:'') \<and> ?g \<noteq> []) \<and> re_search_motif cs = None"
    by (simp add: Let_def)
  then show ?case using here split Cons.IH by blast
qed

lemma re_search_motif_absent:
  "\<not> (\<exists>pre post. s = pre @ str ''Motif:'' @ post) \<Longrightarrow> re_search_motif s = None"
  unfolding re_search_motif_None_iff by blast

lemma example_gff_line_parts:
  "\<not> startswith example_gff_line (str ''#'')"
  "strip example_gff_line =
     join TAB (map str [''chr1'', ''rm'', ''match'', ''1'', ''10'', ''.'', ''+'', ''.'']) @ [TAB] @
     str ''Target '' @ [DQUOTE] @ str ''Motif:rnd-1_family'' @ [DQUOTE] @ str '' 1 10''"
  "length (split_sep TAB (strip example_gff_line)) = 9"
  "split_sep TAB (strip example_gff_line) ! 8 =
     str ''Target '' @ [DQUOTE] @ str ''Motif:rnd-1_family'' @ [DQUOTE] @ str '' 1 10''"
  by (simp_all add: example_gff_line_def startswith_def strip_def isspace_def str_def)

lemma example_gff_line_motif:
  "re_search_motif (split_sep TAB (strip example_gff_line) ! 8) = Some (str ''rnd-1_family'')"
  unfolding example_gff_line_parts(4)
  by (simp add: startswith_def motif_char_def isspace_def str_def)

lemma example_gff_line_plain_parts:
  "\<not> startswith example_gff_line_plain (str ''#'')"
  "strip example_gff_line_plain =
     join TAB (map str [''chr1'', ''rm'', ''match'', ''20'', ''30'', ''.'', ''-'', ''.'']) @ [TAB] @
     str ''Target none''"
  "length (split_sep TAB (strip example_gff_line_plain)) = 9"
  "split_sep TAB (strip example_gff_line_plain) ! 8 = str ''Target none''"
  by (simp_all add: example_gff_line_plain_def startswith_def strip_def isspace_def str_def)

lemma example_gff_line_plain_motif:
  "re_search_motif (split_sep TAB (strip example_gff_line_plain) ! 8) = None"
  unfolding example_gff_line_plain_parts(4)
  by (simp add: startswith_def str_def)

lemma add_family_body_normal:
  assumes "files w fam = Regular ftext"
    and "motif_to_family (build_lookup ftext) \<noteq> []"
    and "files w gff = Regular gtext"
    and "\<forall>e. files w out \<noteq> Faulty e"
    and "gff \<noteq> out"
  shows "\<exists>w'. add_family_body rt w gff fam out = (None, w') \<and>
     files w' = (files w)(out := Regular (annotated_text (motif_to_family (build_lookup ftext))
                                (readlines (universal_newlines gtext))))"
proof -
  have b: "fold read_family_line (readlines (universal_newlines ftext))
      \<lparr>motif_to_family = [], lookup_printed = []\<rparr> = build_lookup ftext"
    by (simp add: build_lookup_def)
  show ?thesis
    using assms
    by (simp add: add_family_body_def Let_def print_def open_r_def open_w_def read_text_def
        b fold_annotate_outfile split: node.splits)
qed

lemma add_family_normal:
  assumes "files w fam = Regular ftext"
    and "motif_to_family (build_lookup ftext) \<noteq> []"
    and "files w gff = Regular gtext"
    and "\<forall>e. files w out \<noteq> Faulty e"
    and "gff \<noteq> out"
  shows "fst (add_family_column rt w gff fam out) = None \<and>
     files (snd (add_family_column rt w gff fam out)) =
       (files w)(out := Regular (annotated_text (motif_to_family (build_lookup ftext))
                                (readlines (universal_newlines gtext))))"
proof -
  let ?w0 = "print (str ''--- Starting Process ---'') w"
  have a: "files ?w0 fam = Regular ftext" "files ?w0 gff = Regular gtext"
    "\<forall>e. files ?w0 out \<noteq> Faulty e"
    using assms by (simp_all add: print_def)
  obtain w' where w': "add_family_body rt ?w0 gff fam out = (None, w')"
    "files w' = (files ?w0)(out := Regular (annotated_text (motif_to_family (build_lookup ftext))
                                (readlines (universal_newlines gtext))))"
    using add_family_body_normal[OF a(1) assms(2) a(2) a(3) assms(5), of rt] by blast
  show ?thesis unfolding add_family_column_def w'(1) using w'(2) by (simp add: print_def)
qed

lemma startswith_hash: "startswith s (str ''#'') \<longleftrightarrow> s \<noteq> [] \<and> hd s = HASH"
  by (cases s) (simp_all add: startswith_def str_def)

lemma hd_strip: "strip s \<noteq> [] \<Longrightarrow> hd (strip s) = hd (dropWhile isspace s)"
  using strip_decomp[of s] by (metis hd_append2)

lemma set_split_sep: "p \<in> set (split_sep sep s) \<Longrightarrow> set p \<subseteq> set s"
proof (induction s arbitrary: p)
  case Nil
  then show ?case by simp
next
  case (Cons c cs)
  show ?case
  proof (cases "c = sep")
    case True
    with Cons show ?thesis by auto
  next
    case False
    show ?thesis
    proof (cases "split_sep sep cs")
      case Nil
      with Cons.prems False show ?thesis by simp
    next
      case sp: (Cons q qs)
      from Cons.prems False sp have "p = c # q \<or> p \<in> set qs" by simp
      then show ?thesis
      proof
        assume "p = c # q"
        moreover have "set q \<subseteq> set cs" using Cons.IH[of q] sp by simp
        ultimately show ?thesis by auto
      next
        assume "p \<in> set qs"
        then have "set p \<subseteq> set cs" using Cons.IH[of p] sp by simp
        then show ?thesis by auto
      qed
    qed
  qed
qed

lemma family_entry_value:
  "family_entry l = Some (m, v) \<Longrightarrow> set v \<subseteq> set (strip l)"
proof -
  assume "family_entry l = Some (m, v)"
  then have "split_sep TAB (strip l) = [m, v]"
    unfolding family_entry_def by (simp split: list.splits)
  then have "v \<in> set (split_sep TAB (strip l))" by simp
  then show ?thesis by (rule set_split_sep)
qed

lemma family_entries_mem:
  "(m, v) \<in> set (family_entries ls) \<Longrightarrow> \<exists>l\<in>set ls. family_entry l = Some (m, v)"
  by (auto simp: family_entries_def map_filter_def)

lemma lookup_value_no_LF:
  assumes "map_of (motif_to_family (build_lookup text)) m = Some v"
  shows "LF \<notin> set v"
proof -
  have "map_of (rev (family_entries (readlines (universal_newlines text)))) m = Some v"
    using assms by (simp add: build_lookup_def fold_read_family_map)
  then have "(m, v) \<in> set (family_entries (readlines (universal_newlines text)))"
    using map_of_SomeD by fastforce
  then obtain l where l: "l \<in> set (readlines (universal_newlines text))"
    "family_entry l = Some (m, v)" using family_entries_mem by blast
  then have "set v \<subseteq> set (strip l)" using family_entry_value by blast
  moreover have "LF \<notin> set (strip l)" using l(1) by (rule strip_line_no_LF)
  ultimately show ?thesis by blast
qed

lemma resolved_label_no_LF:
  "LF \<notin> set (resolved_label (motif_to_family (build_lookup text)) l)"
proof (cases "re_search_motif (split_sep TAB (strip l) ! 8)")
  case None
  then show ?thesis by (simp add: resolved_label_def str_def)
next
  case (Some motif)
  show ?thesis
  proof (cases "map_of (motif_to_family (build_lookup text)) motif")
    case None
    with Some show ?thesis by (simp add: resolved_label_def str_def)
  next
    case v: (Some family)
    then have "LF \<notin> set family" by (rule lookup_value_no_LF)
    with Some v show ?thesis by (simp add: resolved_label_def)
  qed
qed

lemma readlines_annotated_text:
  assumes "set ls \<subseteq> set (readlines s)"
  shows "readlines (annotated_text (motif_to_family (build_lookup text)) ls) =
     map (annotated (motif_to_family (build_lookup text))) (filter qualifies ls)"
proof -
  let ?d = "motif_to_family (build_lookup text)"
  let ?body = "\<lambda>l. strip l @ [TAB] @ resolved_label ?d l"
  have "\<forall>x\<in>set (map ?body (filter qualifies ls)). LF \<notin> set x"
    using assms strip_line_no_LF resolved_label_no_LF by auto
  then have "readlines (concat (map (\<lambda>x. x @ [LF]) (map ?body (filter qualifies ls)))) =
      map (\<lambda>x. x @ [LF]) (map ?body (filter qualifies ls))"
    by (rule readlines_concat)
  then show ?thesis
    by (simp add: annotated_text_def annotated_def[abs_def] comp_def)
qed

lemma annotated_not_blank: "qualifies l \<Longrightarrow> strip (annotated d l) \<noteq> []"
proof -
  assume "qualifies l"
  then have ne: "strip l \<noteq> []" by (simp add: qualifies_def)
  then have "hd (strip l) \<in> set (annotated d l)" by (simp add: annotated_def)
  moreover have "\<not> isspace (hd (strip l))" using ne by (rule strip_hd)
  ultimately show ?thesis unfolding strip_Nil_iff by blast
qed

lemma annotated_hash:
  assumes "qualifies l" and "startswith (annotated d l) (str ''#'')"
  shows "l \<noteq> [] \<and> isspace (hd l) \<and> startswith (strip l) (str ''#'')"
proof -
  from assms(1) have ne: "strip l \<noteq> []" and nc: "\<not> startswith l (str ''#'')"
    by (simp_all add: qualifies_def)
  have l: "l \<noteq> []" using ne by (auto simp: strip_def)
  have "hd (annotated d l) = hd (strip l)" using ne by (simp add: annotated_def)
  then have h: "hd (strip l) = HASH" using assms(2) by (simp add: startswith_hash)
  have "isspace (hd l)"
  proof (rule ccontr)
    assume "\<not> isspace (hd l)"
    then have "dropWhile isspace l = l" using l by (rule dropWhile_hd_id[rotated])
    then have "hd (strip l) = hd l" using hd_strip[OF ne] by simp
    then show False using h nc l by (simp add: startswith_hash)
  qed
  then show ?thesis using l h ne by (simp add: startswith_hash)
qed

lemma example_lookup_small_built:
  "motif_to_family (build_lookup example_lookup_small) = [(str ''rnd-1_family'', str ''LINE'')]"
  by (simp add: build_lookup_def example_lookup_small_def read_family_line_def strip_def
      isspace_def str_def)

lemma example_world_hash_files:
  "files example_world_hash (str ''fam'') = Regular example_lookup_small"
  "files example_world_hash (str ''gff'') = Regular example_gff_hash"
  "\<forall>e. files example_world_hash (str ''out'') \<noteq> Faulty e"
  "str ''gff'' \<noteq> str ''out''"
  by (simp_all add: example_world_hash_def text_world_def str_def)

lemma example_gff_hash_lines:
  "readlines (universal_newlines example_gff_hash) =
     [str ''##gff-version 3'' @ [LF],
      str '' #seq'' @ [TAB] @
      join TAB (map str [''rm'', ''match'', ''1'', ''10'', ''.'', ''+'', ''.'']) @ [TAB] @
      str ''Target '' @ [DQUOTE] @ str ''Motif:rnd-1_family'' @ [DQUOTE] @ str '' 1 10'' @ [LF]]"
  by (simp add: example_gff_hash_def str_def)

lemma example_gff_hash_annotated:
  "annotated_text [(str ''rnd-1_family'', str ''LINE'')]
     (readlines (universal_newlines example_gff_hash)) =
   str ''#seq'' @ [TAB] @
   join TAB (map str [''rm'', ''match'', ''1'', ''10'', ''.'', ''+'', ''.'']) @ [TAB] @
   str ''Target '' @ [DQUOTE] @ str ''Motif:rnd-1_family'' @ [DQUOTE] @ str '' 1 10'' @
   [TAB] @ str ''LINE'' @ [LF]"
  unfolding example_gff_hash_lines
  by (simp add: annotated_text_def annotated_def qualifies_def resolved_label_def
      startswith_def strip_def isspace_def motif_char_def str_def)

section \<open>Stage B: comments and blank lines\<close>

text \<open>
  Claim C6 fails as stated: the test for a comment is made on the raw line, before it is
  trimmed. In the example the second line of the GFF starts with a blank and then \<^verbatim>\<open>#seq\<close>; it
  is not taken for a comment, and the output file holds a line that begins with \<^verbatim>\<open>#\<close>.
\<close>

theorem output_line_starts_with_hash_counterexample:
  "files (snd (add_family_column example_runtime example_world_hash
            (str ''gff'') (str ''fam'') (str ''out''))) (str ''out'') =
     Regular (str ''#seq'' @ [TAB] @
       join TAB (map str [''rm'', ''match'', ''1'', ''10'', ''.'', ''+'', ''.'']) @ [TAB] @
       str ''Target '' @ [DQUOTE] @ str ''Motif:rnd-1_family'' @ [DQUOTE] @ str '' 1 10'' @
       [TAB] @ str ''LINE'' @ [LF]) \<and>
   startswith (str ''#seq'' @ [TAB] @
       join TAB (map str [''rm'', ''match'', ''1'', ''10'', ''.'', ''+'', ''.'']) @ [TAB] @
       str ''Target '' @ [DQUOTE] @ str ''Motif:rnd-1_family'' @ [DQUOTE] @ str '' 1 10'' @
       [TAB] @ str ''LINE'' @ [LF]) (str ''#'')"
proof -
  have ne: "motif_to_family (build_lookup example_lookup_small) \<noteq> []"
    by (simp add: example_lookup_small_built)
  note n = add_family_normal[OF example_world_hash_files(1) ne example_world_hash_files(2)
      example_world_hash_files(3) example_world_hash_files(4), of example_runtime]
  have a: "files (snd (add_family_column example_runtime example_world_hash
            (str ''gff'') (str ''fam'') (str ''out''))) (str ''out'') =
     Regular (str ''#seq'' @ [TAB] @
       join TAB (map str [''rm'', ''match'', ''1'', ''10'', ''.'', ''+'', ''.'']) @ [TAB] @
       str ''Target '' @ [DQUOTE] @ str ''Motif:rnd-1_family'' @ [DQUOTE] @ str '' 1 10'' @
       [TAB] @ str ''LINE'' @ [LF])"
    using n by (simp add: example_lookup_small_built example_gff_hash_annotated)
  have b: "startswith (str ''#seq'' @ [TAB] @
       join TAB (map str [''rm'', ''match'', ''1'', ''10'', ''.'', ''+'', ''.'']) @ [TAB] @
       str ''Target '' @ [DQUOTE] @ str ''Motif:rnd-1_family'' @ [DQUOTE] @ str '' 1 10'' @
       [TAB] @ str ''LINE'' @ [LF]) (str ''#'')"
    by (simp add: startswith_def str_def)
  show ?thesis by (intro conjI) (rule a b)+
qed

text \<open>
  Claim C6, amended. In a run that reaches the GFF (the lookup file gives a dictionary that
  is not empty, the GFF exists, the output path can be opened and is not the GFF), the lines
  of the output file are the annotated lines of the qualifying lines of the GFF, one for one
  and in order. A line whose raw text begins with \<^verbatim>\<open>#\<close> and a line that is blank after
  trimming do not qualify, so they give no output line. No output line is blank. An output
  line begins with \<^verbatim>\<open>#\<close> only when the input line has whitespace before a \<^verbatim>\<open>#\<close>.
\<close>

theorem output_has_no_blank_line_and_no_raw_comment:
  assumes "files w family_list_file = Regular ftext"
    and "motif_to_family (build_lookup ftext) \<noteq> []"
    and "files w gff_input_file = Regular gtext"
    and "\<forall>e. files w output_file \<noteq> Faulty e"
    and "gff_input_file \<noteq> output_file"
  shows "files (snd (add_family_column rt w gff_input_file family_list_file output_file))
           output_file =
           Regular (annotated_text (motif_to_family (build_lookup ftext))
                      (readlines (universal_newlines gtext))) \<and>
         readlines (annotated_text (motif_to_family (build_lookup ftext))
                      (readlines (universal_newlines gtext))) =
           map (annotated (motif_to_family (build_lookup ftext)))
             (filter qualifies (readlines (universal_newlines gtext))) \<and>
         (\<forall>l. startswith l (str ''#'') \<or> strip l = [] \<longrightarrow> \<not> qualifies l) \<and>
         (\<forall>l. qualifies l \<longrightarrow>
            strip (annotated (motif_to_family (build_lookup ftext)) l) \<noteq> [] \<and>
            (startswith (annotated (motif_to_family (build_lookup ftext)) l) (str ''#'') \<longrightarrow>
               l \<noteq> [] \<and> isspace (hd l) \<and> startswith (strip l) (str ''#'')))"
proof -
  have a: "files (snd (add_family_column rt w gff_input_file family_list_file output_file))
           output_file =
           Regular (annotated_text (motif_to_family (build_lookup ftext))
                      (readlines (universal_newlines gtext)))"
    using add_family_normal[OF assms, of rt] by simp
  have b: "readlines (annotated_text (motif_to_family (build_lookup ftext))
                      (readlines (universal_newlines gtext))) =
           map (annotated (motif_to_family (build_lookup ftext)))
             (filter qualifies (readlines (universal_newlines gtext)))"
    by (rule readlines_annotated_text[of _ "universal_newlines gtext"]) simp
  have c: "\<forall>l. startswith l (str ''#'') \<or> strip l = [] \<longrightarrow> \<not> qualifies l"
    by (auto simp: qualifies_def)
  have d: "\<forall>l. qualifies l \<longrightarrow>
            strip (annotated (motif_to_family (build_lookup ftext)) l) \<noteq> [] \<and>
            (startswith (annotated (motif_to_family (build_lookup ftext)) l) (str ''#'') \<longrightarrow>
               l \<noteq> [] \<and> isspace (hd l) \<and> startswith (strip l) (str ''#''))"
    using annotated_not_blank annotated_hash by blast
  show ?thesis using a b c d by blast
qed

theorem output_has_no_blank_line_and_no_raw_comment_witness:
  "files example_world_hash (str ''fam'') = Regular example_lookup_small \<and>
   motif_to_family (build_lookup example_lookup_small) \<noteq> [] \<and>
   files example_world_hash (str ''gff'') = Regular example_gff_hash \<and>
   files (snd (add_family_column example_runtime example_world_hash
            (str ''gff'') (str ''fam'') (str ''out''))) (str ''out'') =
     Regular (annotated_text (motif_to_family (build_lookup example_lookup_small))
                (readlines (universal_newlines example_gff_hash))) \<and>
   readlines (annotated_text (motif_to_family (build_lookup example_lookup_small))
                (readlines (universal_newlines example_gff_hash))) =
     [str ''#seq'' @ [TAB] @
      join TAB (map str [''rm'', ''match'', ''1'', ''10'', ''.'', ''+'', ''.'']) @ [TAB] @
      str ''Target '' @ [DQUOTE] @ str ''Motif:rnd-1_family'' @ [DQUOTE] @ str '' 1 10'' @
      [TAB] @ str ''LINE'' @ [LF]] \<and>
   \<not> qualifies (str ''##gff-version 3'' @ [LF]) \<and>
   \<not> qualifies [32, LF]"
proof -
  have ne: "motif_to_family (build_lookup example_lookup_small) \<noteq> []"
    by (simp add: example_lookup_small_built)
  note t = output_has_no_blank_line_and_no_raw_comment[OF example_world_hash_files(1) ne
      example_world_hash_files(2) example_world_hash_files(3) example_world_hash_files(4),
      of example_runtime]
  from t have a: "files (snd (add_family_column example_runtime example_world_hash
            (str ''gff'') (str ''fam'') (str ''out''))) (str ''out'') =
     Regular (annotated_text (motif_to_family (build_lookup example_lookup_small))
                (readlines (universal_newlines example_gff_hash)))"
    by blast
  from t have r: "readlines (annotated_text (motif_to_family (build_lookup example_lookup_small))
                (readlines (universal_newlines example_gff_hash))) =
           map (annotated (motif_to_family (build_lookup example_lookup_small)))
             (filter qualifies (readlines (universal_newlines example_gff_hash)))"
    by blast
  have e: "map (annotated (motif_to_family (build_lookup example_lookup_small)))
             (filter qualifies (readlines (universal_newlines example_gff_hash))) =
     [str ''#seq'' @ [TAB] @
      join TAB (map str [''rm'', ''match'', ''1'', ''10'', ''.'', ''+'', ''.'']) @ [TAB] @
      str ''Target '' @ [DQUOTE] @ str ''Motif:rnd-1_family'' @ [DQUOTE] @ str '' 1 10'' @
      [TAB] @ str ''LINE'' @ [LF]]"
    unfolding example_gff_hash_lines example_lookup_small_built
    by (simp add: annotated_def qualifies_def resolved_label_def
        startswith_def strip_def isspace_def motif_char_def str_def)
  have b: "readlines (annotated_text (motif_to_family (build_lookup example_lookup_small))
                (readlines (universal_newlines example_gff_hash))) =
     [str ''#seq'' @ [TAB] @
      join TAB (map str [''rm'', ''match'', ''1'', ''10'', ''.'', ''+'', ''.'']) @ [TAB] @
      str ''Target '' @ [DQUOTE] @ str ''Motif:rnd-1_family'' @ [DQUOTE] @ str '' 1 10'' @
      [TAB] @ str ''LINE'' @ [LF]]"
    using r e by simp
  from t have q: "\<forall>l. startswith l (str ''#'') \<or> strip l = [] \<longrightarrow> \<not> qualifies l" by blast
  have "startswith (str ''##gff-version 3'' @ [LF]) (str ''#'')"
    by (simp add: startswith_def str_def)
  with q have c: "\<not> qualifies (str ''##gff-version 3'' @ [LF])" by blast
  have "strip [32, LF] = []" by (simp add: strip_def isspace_def)
  with q have d: "\<not> qualifies [32, LF]" by blast
  show ?thesis
    by (intro conjI) (rule example_world_hash_files(1) ne example_world_hash_files(2) a b c d)+
qed

lemma example_world_indented_files:
  "files example_world_indented (str ''fam'') = Regular example_lookup_small"
  "files example_world_indented (str ''gff'') = Regular example_gff_indented"
  "\<forall>e. files example_world_indented (str ''out'') \<noteq> Faulty e"
  by (simp_all add: example_world_indented_def text_world_def str_def)

lemma example_gff_indented_lines:
  "readlines (universal_newlines example_gff_indented) =
     [str ''# a comment'' @ [LF], [32, LF], example_indented_line]"
  by (simp add: example_gff_indented_def example_indented_line_def str_def)

lemma example_indented_line_strip:
  "strip example_indented_line =
     str ''# copied by hand'' @ [TAB] @
     join TAB (map str [''rm'', ''match'', ''5'', ''9'', ''.'', ''-'', ''.'', ''ID=7''])"
  by (simp add: example_indented_line_def strip_def isspace_def str_def)

lemma example_gff_indented_annotated:
  "annotated_text [(str ''rnd-1_family'', str ''LINE'')]
     (readlines (universal_newlines example_gff_indented)) =
   str ''# copied by hand'' @ [TAB] @
   join TAB (map str [''rm'', ''match'', ''5'', ''9'', ''.'', ''-'', ''.'', ''ID=7'']) @
   [TAB] @ str ''UNKNOWN'' @ [LF]"
proof -
  have c: "\<not> qualifies (str ''# a comment'' @ [LF])"
    by (simp add: qualifies_def startswith_def str_def)
  have b: "\<not> qualifies [32, LF]"
    by (simp add: qualifies_def strip_def isspace_def)
  have s: "re_search_motif
      (split_sep TAB (str ''# copied by hand'' @ [TAB] @
         join TAB (map str [''rm'', ''match'', ''5'', ''9'', ''.'', ''-'', ''.'', ''ID=7''])) ! 8)
      = None"
    by (simp add: startswith_def str_def)
  have q: "qualifies example_indented_line"
    unfolding qualifies_def example_indented_line_strip
    by (simp add: example_indented_line_def startswith_def str_def)
  have a: "annotated [(str ''rnd-1_family'', str ''LINE'')] example_indented_line =
     str ''# copied by hand'' @ [TAB] @
     join TAB (map str [''rm'', ''match'', ''5'', ''9'', ''.'', ''-'', ''.'', ''ID=7'']) @
     [TAB] @ str ''UNKNOWN'' @ [LF]"
    unfolding annotated_def resolved_label_def example_indented_line_strip s by simp
  show ?thesis
    unfolding example_gff_indented_lines annotated_text_def using c b q a by simp
qed

section \<open>Stage B: a comment mark after whitespace\<close>

text \<open>
  Claim C10. The test for a comment is made on the raw line. The third line of the example
  GFF starts with a tab and then \<^verbatim>\<open>#\<close>: it is whitespace followed by \<^verbatim>\<open>#\<close>, its raw text does
  not begin with \<^verbatim>\<open>#\<close>, and trimmed it has nine tab-separated fields. It is processed as a
  data line: the output file holds it, trimmed, with the label \<^verbatim>\<open>UNKNOWN\<close> appended, while
  the comment line and the blank line before it give nothing.
\<close>

theorem indented_hash_line_is_annotated:
  "isspace (hd example_indented_line) \<and>
   hd (tl example_indented_line) = HASH \<and>
   \<not> startswith example_indented_line (str ''#'') \<and>
   length (split_sep TAB (strip example_indented_line)) = 9 \<and>
   readlines (universal_newlines example_gff_indented) =
     [str ''# a comment'' @ [LF], [32, LF], example_indented_line] \<and>
   files (snd (add_family_column example_runtime example_world_indented
            (str ''gff'') (str ''fam'') (str ''out''))) (str ''out'') =
     Regular (str ''# copied by hand'' @ [TAB] @
       join TAB (map str [''rm'', ''match'', ''5'', ''9'', ''.'', ''-'', ''.'', ''ID=7'']) @
       [TAB] @ str ''UNKNOWN'' @ [LF])"
proof -
  have ne: "motif_to_family (build_lookup example_lookup_small) \<noteq> []"
    by (simp add: example_lookup_small_built)
  have d: "str ''gff'' \<noteq> str ''out''" by (simp add: str_def)
  note n = add_family_normal[OF example_world_indented_files(1) ne
      example_world_indented_files(2) example_world_indented_files(3) d, of example_runtime]
  have a: "files (snd (add_family_column example_runtime example_world_indented
            (str ''gff'') (str ''fam'') (str ''out''))) (str ''out'') =
     Regular (str ''# copied by hand'' @ [TAB] @
       join TAB (map str [''rm'', ''match'', ''5'', ''9'', ''.'', ''-'', ''.'', ''ID=7'']) @
       [TAB] @ str ''UNKNOWN'' @ [LF])"
    using n by (simp add: example_lookup_small_built example_gff_indented_annotated)
  have h: "isspace (hd example_indented_line)" "hd (tl example_indented_line) = HASH"
    "\<not> startswith example_indented_line (str ''#'')"
    by (simp_all add: example_indented_line_def isspace_def startswith_def str_def)
  have l: "length (split_sep TAB (strip example_indented_line)) = 9"
    unfolding example_indented_line_strip by (simp add: str_def)
  show ?thesis by (intro conjI) (rule h l example_gff_indented_lines a)+
qed

lemma motif_char_iff: "motif_char c \<longleftrightarrow> c \<noteq> DQUOTE \<and> \<not> isspace c"
  by (simp add: motif_char_def)

lemma match_here_iff:
  "(startswith s (str ''Motif:'') \<and> takeWhile motif_char (drop 6 s) \<noteq> []) \<longleftrightarrow>
   (\<exists>c q. s = str ''Motif:'' @ c # q \<and> motif_char c)"
proof
  assume h: "startswith s (str ''Motif:'') \<and> takeWhile motif_char (drop 6 s) \<noteq> []"
  then obtain post0 where p0: "s = str ''Motif:'' @ post0" using startswith_iff by blast
  then have d: "drop 6 s = post0" using length_Motif by (metis append_eq_conv_conj)
  with h have "post0 \<noteq> [] \<and> motif_char (hd post0)"
    using takeWhile_nonempty_hd[of motif_char post0] by simp
  then obtain c q where "post0 = c # q" "motif_char c" by (cases post0) auto
  with p0 show "\<exists>c q. s = str ''Motif:'' @ c # q \<and> motif_char c" by blast
next
  assume "\<exists>c q. s = str ''Motif:'' @ c # q \<and> motif_char c"
  then obtain c q where e: "s = str ''Motif:'' @ c # q" and c: "motif_char c" by blast
  then have "startswith s (str ''Motif:'')" using startswith_iff by blast
  moreover have "drop 6 s = c # q" using e length_Motif by (metis append_eq_conv_conj)
  ultimately show "startswith s (str ''Motif:'') \<and> takeWhile motif_char (drop 6 s) \<noteq> []"
    using c by simp
qed

lemma re_search_motif_unfold:
  "re_search_motif (a # cs) =
     (if startswith (a # cs) (str ''Motif:'') \<and> takeWhile motif_char (drop 6 (a # cs)) \<noteq> []
      then Some (takeWhile motif_char (drop 6 (a # cs)))
      else re_search_motif cs)"
  by (simp only: re_search_motif.simps Let_def)

lemma re_search_motif_Cons:
  "re_search_motif (a # cs) =
     (if \<exists>c q. a # cs = str ''Motif:'' @ c # q \<and> motif_char c
      then Some (takeWhile motif_char (drop 6 (a # cs)))
      else re_search_motif cs)"
  by (simp only: re_search_motif_unfold match_here_iff)

lemma takeWhile_run:
  "\<forall>c\<in>set g. P c \<Longrightarrow> rest = [] \<or> \<not> P (hd rest) \<Longrightarrow> takeWhile P (g @ rest) = g"
  by (cases rest) (simp_all add: takeWhile_append2)

lemma extracts_imp_search: "extracts s g \<Longrightarrow> re_search_motif s = Some g"
proof -
  assume "extracts s g"
  then obtain before rest where
    s: "s = before @ str ''Motif:'' @ g @ rest" and ne: "g \<noteq> []"
    and mc: "\<forall>c\<in>set g. motif_char c" and r: "rest = [] \<or> \<not> motif_char (hd rest)"
    and left: "\<forall>p c q. s = p @ str ''Motif:'' @ c # q \<and> motif_char c \<longrightarrow> length before \<le> length p"
    unfolding extracts_def motif_char_def by blast
  from s left show ?thesis
  proof (induction before arbitrary: s)
    case Nil
    obtain c g' where g: "g = c # g'" using ne by (cases g) auto
    have c: "motif_char c" using mc g by simp
    have e: "s = str ''Motif:'' @ c # (g' @ rest)" using Nil(1) g by simp
    then obtain a cs where acs: "s = a # cs" by (simp add: str_def)
    have "drop 6 s = g @ rest" using Nil(1) length_Motif by (metis append_Nil append_eq_conv_conj)
    then have tw: "takeWhile motif_char (drop 6 s) = g" using takeWhile_run[OF mc r] by simp
    have "\<exists>c q. s = str ''Motif:'' @ c # q \<and> motif_char c" using e c by blast
    then have ex: "\<exists>c q. a # cs = str ''Motif:'' @ c # q \<and> motif_char c" unfolding acs .
    have "re_search_motif s = Some (takeWhile motif_char (drop 6 s))"
      unfolding acs using ex by (simp only: re_search_motif_Cons if_True)
    then show ?case by (simp only: tw)
  next
    case (Cons a b)
    let ?cs = "b @ str ''Motif:'' @ g @ rest"
    have s: "s = a # ?cs" using Cons.prems(1) by simp
    have nohere: "\<not> (\<exists>c q. a # ?cs = str ''Motif:'' @ c # q \<and> motif_char c)"
    proof
      assume "\<exists>c q. a # ?cs = str ''Motif:'' @ c # q \<and> motif_char c"
      then obtain c q where "s = [] @ str ''Motif:'' @ c # q" "motif_char c" using s by auto
      then have "length (a # b) \<le> length ([]::pystr)" using Cons.prems(2) by blast
      then show False by simp
    qed
    have left': "\<forall>p c q. ?cs = p @ str ''Motif:'' @ c # q \<and> motif_char c \<longrightarrow> length b \<le> length p"
    proof (intro allI impI)
      fix p c q
      assume "?cs = p @ str ''Motif:'' @ c # q \<and> motif_char c"
      then have "s = (a # p) @ str ''Motif:'' @ c # q \<and> motif_char c" using s by simp
      then have "length (a # b) \<le> length (a # p)" using Cons.prems(2) by blast
      then show "length b \<le> length p" by simp
    qed
    have ih: "re_search_motif ?cs = Some g" using Cons.IH[OF refl left'] .
    have "re_search_motif (a # ?cs) = re_search_motif ?cs"
      using nohere by (simp only: re_search_motif_Cons if_False)
    then show ?case unfolding s using ih by (simp only:)
  qed
qed

lemma search_imp_extracts: "re_search_motif s = Some g \<Longrightarrow> extracts s g"
proof (induction s)
  case Nil
  then show ?case by simp
next
  case (Cons a cs)
  let ?s = "a # cs"
  show ?case
  proof (cases "\<exists>c q. ?s = str ''Motif:'' @ c # q \<and> motif_char c")
    case True
    then have "re_search_motif ?s = Some (takeWhile motif_char (drop 6 ?s))"
      by (simp only: re_search_motif_Cons if_True)
    then have g: "g = takeWhile motif_char (drop 6 ?s)"
      using Cons.prems by (metis option.inject)
    from True obtain c q where e: "?s = str ''Motif:'' @ c # q" and c: "motif_char c" by blast
    have d: "drop 6 ?s = c # q" using e length_Motif by (metis append_eq_conv_conj)
    let ?rest = "dropWhile motif_char (drop 6 ?s)"
    have "drop 6 ?s = g @ ?rest" using g by simp
    then have "?s = [] @ str ''Motif:'' @ g @ ?rest" using e d by simp
    moreover have "g \<noteq> []" using g d c by simp
    moreover have "\<forall>c\<in>set g. c \<noteq> DQUOTE \<and> \<not> isspace c"
      using g by (auto dest!: set_takeWhileD simp: motif_char_def)
    moreover have "?rest = [] \<or> hd ?rest = DQUOTE \<or> isspace (hd ?rest)"
      using hd_dropWhile[of motif_char "drop 6 ?s"] by (auto simp: motif_char_def)
    moreover have "\<forall>p c q. ?s = p @ str ''Motif:'' @ c # q \<and> c \<noteq> DQUOTE \<and> \<not> isspace c \<longrightarrow>
        length ([]::pystr) \<le> length p" by simp
    ultimately show ?thesis unfolding extracts_def by blast
  next
    case False
    then have "re_search_motif ?s = re_search_motif cs"
      by (simp only: re_search_motif_Cons if_False)
    then have "re_search_motif cs = Some g" using Cons.prems by (simp only:)
    then have "extracts cs g" by (rule Cons.IH)
    then obtain before rest where
      s: "cs = before @ str ''Motif:'' @ g @ rest" and ne: "g \<noteq> []"
      and mc: "\<forall>c\<in>set g. c \<noteq> DQUOTE \<and> \<not> isspace c"
      and r: "rest = [] \<or> hd rest = DQUOTE \<or> isspace (hd rest)"
      and left: "\<forall>p c q. cs = p @ str ''Motif:'' @ c # q \<and> c \<noteq> DQUOTE \<and> \<not> isspace c \<longrightarrow>
          length before \<le> length p"
      unfolding extracts_def by blast
    have s': "?s = (a # before) @ str ''Motif:'' @ g @ rest" using s by simp
    have left': "\<forall>p c q. ?s = p @ str ''Motif:'' @ c # q \<and> c \<noteq> DQUOTE \<and> \<not> isspace c \<longrightarrow>
          length (a # before) \<le> length p"
    proof (intro allI impI)
      fix p c q
      assume h: "?s = p @ str ''Motif:'' @ c # q \<and> c \<noteq> DQUOTE \<and> \<not> isspace c"
      show "length (a # before) \<le> length p"
      proof (cases p)
        case Nil
        then have "?s = str ''Motif:'' @ c # q \<and> motif_char c" using h by (simp add: motif_char_def)
        then show ?thesis using False by blast
      next
        case (Cons a' p')
        then have "cs = p' @ str ''Motif:'' @ c # q" using h by simp
        then have "length before \<le> length p'" using left h by blast
        then show ?thesis using Cons by simp
      qed
    qed
    show ?thesis unfolding extracts_def using s' ne mc r left' by blast
  qed
qed

lemma extracts_iff_search: "extracts s g \<longleftrightarrow> re_search_motif s = Some g"
  using extracts_imp_search search_imp_extracts by blast

lemma no_match_iff_search:
  "\<not> (\<exists>p c q. s = p @ str ''Motif:'' @ c # q \<and> c \<noteq> DQUOTE \<and> \<not> isspace c) \<longleftrightarrow>
   re_search_motif s = None"
  unfolding re_search_motif_None_iff motif_char_def by blast

lemma known_line_iff:
  "known_line d l \<longleftrightarrow>
   (\<exists>m f. re_search_motif (split_sep TAB (strip l) ! 8) = Some m \<and> map_of d m = Some f)"
  by (simp add: known_line_def extracts_iff_search)

lemma resolved_label_known:
  "extracts (split_sep TAB (strip l) ! 8) xyz \<Longrightarrow> map_of d xyz = Some family \<Longrightarrow>
   resolved_label d l = family"
  by (simp add: resolved_label_def extracts_iff_search)

lemma resolved_label_unknown: "\<not> known_line d l \<Longrightarrow> resolved_label d l = str ''UNKNOWN''"
  by (auto simp: resolved_label_def known_line_iff split: option.splits)

lemma annotate_line_found:
  "qualifies l \<Longrightarrow> found_count (annotate_line d l st) =
     found_count st + (if known_line d l then 1 else 0)"
  by (auto simp: annotate_line_def qualifies_def Let_def known_line_iff split: option.splits)

lemma annotate_line_unknown:
  "qualifies l \<Longrightarrow> unknown_count (annotate_line d l st) =
     unknown_count st + (if known_line d l then 0 else 1)"
  by (auto simp: annotate_line_def qualifies_def Let_def known_line_iff split: option.splits)

lemma fold_annotate_found:
  "found_count (fold (annotate_line d) ls st) = found_count st + found_total d ls"
proof (induction ls arbitrary: st)
  case Nil
  then show ?case by (simp add: found_total_def)
next
  case (Cons l ls)
  show ?case
  proof (cases "qualifies l")
    case True
    then show ?thesis using Cons.IH[of "annotate_line d l st"]
      by (simp add: annotate_line_found found_total_def)
  next
    case False
    then show ?thesis using Cons.IH[of st]
      by (simp add: annotate_line_skip found_total_def)
  qed
qed

lemma fold_annotate_unknown:
  "unknown_count (fold (annotate_line d) ls st) = unknown_count st + unknown_total d ls"
proof (induction ls arbitrary: st)
  case Nil
  then show ?case by (simp add: unknown_total_def)
next
  case (Cons l ls)
  show ?case
  proof (cases "qualifies l")
    case True
    then show ?thesis using Cons.IH[of "annotate_line d l st"]
      by (simp add: annotate_line_unknown unknown_total_def)
  next
    case False
    then show ?thesis using Cons.IH[of st]
      by (simp add: annotate_line_skip unknown_total_def)
  qed
qed

lemma annotated_text_split:
  "qualifies l \<Longrightarrow>
   annotated_text d (pre @ l # post) = annotated_text d pre @ annotated d l @ annotated_text d post"
  by (simp add: annotated_text_def)

lemma found_total_split:
  "qualifies l \<Longrightarrow> found_total d (pre @ l # post) =
     found_total d pre + (if known_line d l then 1 else 0) + found_total d post"
  by (simp add: found_total_def)

lemma unknown_total_split:
  "qualifies l \<Longrightarrow> unknown_total d (pre @ l # post) =
     unknown_total d pre + (if known_line d l then 0 else 1) + unknown_total d post"
  by (simp add: unknown_total_def)

lemma report_summary:
  "\<exists>tail. report rt d output_file st =
     [[LF] @ str ''--- Process Finished ---'',
      str ''Output file saved to '' @ [QUOTE] @ output_file @ [QUOTE],
      [LF] @ str ''--- Diagnostic Summary ---'',
      str ''Successfully mapped motifs: '' @ str_nat (found_count st),
      str ''Motifs not found (marked as UNKNOWN): '' @ str_nat (unknown_count st)] @ tail"
  by (simp add: report_def)

lemma add_family_body_normal_stdout:
  assumes "files w fam = Regular ftext"
    and "motif_to_family (build_lookup ftext) \<noteq> []"
    and "files w gff = Regular gtext"
    and "\<forall>e. files w out \<noteq> Faulty e"
    and "gff \<noteq> out"
  shows "\<exists>w'. add_family_body rt w gff fam out = (None, w') \<and>
     stdout w' = stdout w @
       [str ''Reading TE family map from '' @ [QUOTE] @ fam @ [QUOTE] @ str ''...''] @
       lookup_printed (build_lookup ftext) @
       [str ''Successfully mapped '' @
          str_nat (length (motif_to_family (build_lookup ftext))) @ str '' motifs.'',
        str ''Processing '' @ [QUOTE] @ gff @ [QUOTE] @ str '' and writing to '' @
          [QUOTE] @ out @ [QUOTE] @ str ''...''] @
       report rt (motif_to_family (build_lookup ftext)) out
         (fold (annotate_line (motif_to_family (build_lookup ftext)))
            (readlines (universal_newlines gtext)) annot_start)"
proof -
  have b: "fold read_family_line (readlines (universal_newlines ftext))
      \<lparr>motif_to_family = [], lookup_printed = []\<rparr> = build_lookup ftext"
    by (simp add: build_lookup_def)
  show ?thesis
    using assms
    by (simp add: add_family_body_def Let_def print_def open_r_def open_w_def read_text_def
        b annot_start_def split: node.splits)
qed

lemma add_family_normal_stdout:
  assumes "files w fam = Regular ftext"
    and "motif_to_family (build_lookup ftext) \<noteq> []"
    and "files w gff = Regular gtext"
    and "\<forall>e. files w out \<noteq> Faulty e"
    and "gff \<noteq> out"
  shows "stdout (snd (add_family_column rt w gff fam out)) = stdout w @
       [str ''--- Starting Process ---'',
        str ''Reading TE family map from '' @ [QUOTE] @ fam @ [QUOTE] @ str ''...''] @
       lookup_printed (build_lookup ftext) @
       [str ''Successfully mapped '' @
          str_nat (length (motif_to_family (build_lookup ftext))) @ str '' motifs.'',
        str ''Processing '' @ [QUOTE] @ gff @ [QUOTE] @ str '' and writing to '' @
          [QUOTE] @ out @ [QUOTE] @ str ''...''] @
       report rt (motif_to_family (build_lookup ftext)) out
         (fold (annotate_line (motif_to_family (build_lookup ftext)))
            (readlines (universal_newlines gtext)) annot_start)"
proof -
  let ?w0 = "print (str ''--- Starting Process ---'') w"
  have a: "files ?w0 fam = Regular ftext" "files ?w0 gff = Regular gtext"
    "\<forall>e. files ?w0 out \<noteq> Faulty e"
    using assms by (simp_all add: print_def)
  obtain w' where w': "add_family_body rt ?w0 gff fam out = (None, w')"
    "stdout w' = stdout ?w0 @
       [str ''Reading TE family map from '' @ [QUOTE] @ fam @ [QUOTE] @ str ''...''] @
       lookup_printed (build_lookup ftext) @
       [str ''Successfully mapped '' @
          str_nat (length (motif_to_family (build_lookup ftext))) @ str '' motifs.'',
        str ''Processing '' @ [QUOTE] @ gff @ [QUOTE] @ str '' and writing to '' @
          [QUOTE] @ out @ [QUOTE] @ str ''...''] @
       report rt (motif_to_family (build_lookup ftext)) out
         (fold (annotate_line (motif_to_family (build_lookup ftext)))
            (readlines (universal_newlines gtext)) annot_start)"
    using add_family_body_normal_stdout[OF a(1) assms(2) a(2) a(3) assms(5), of rt] by blast
  show ?thesis unfolding add_family_column_def w'(1) using w'(2) by (simp add: print_def)
qed

lemma add_family_normal_summary:
  assumes "files w fam = Regular ftext"
    and "motif_to_family (build_lookup ftext) \<noteq> []"
    and "files w gff = Regular gtext"
    and "\<forall>e. files w out \<noteq> Faulty e"
    and "gff \<noteq> out"
  shows "\<exists>tail. stdout (snd (add_family_column rt w gff fam out)) = stdout w @
       [str ''--- Starting Process ---'',
        str ''Reading TE family map from '' @ [QUOTE] @ fam @ [QUOTE] @ str ''...''] @
       lookup_printed (build_lookup ftext) @
       [str ''Successfully mapped '' @
          str_nat (length (motif_to_family (build_lookup ftext))) @ str '' motifs.'',
        str ''Processing '' @ [QUOTE] @ gff @ [QUOTE] @ str '' and writing to '' @
          [QUOTE] @ out @ [QUOTE] @ str ''...''] @
       [[LF] @ str ''--- Process Finished ---'',
        str ''Output file saved to '' @ [QUOTE] @ out @ [QUOTE],
        [LF] @ str ''--- Diagnostic Summary ---'',
        str ''Successfully mapped motifs: '' @
          str_nat (found_total (motif_to_family (build_lookup ftext))
                     (readlines (universal_newlines gtext))),
        str ''Motifs not found (marked as UNKNOWN): '' @
          str_nat (unknown_total (motif_to_family (build_lookup ftext))
                     (readlines (universal_newlines gtext)))] @ tail"
proof -
  let ?d = "motif_to_family (build_lookup ftext)"
  let ?st = "fold (annotate_line ?d) (readlines (universal_newlines gtext)) annot_start"
  have f: "found_count ?st = found_total ?d (readlines (universal_newlines gtext))"
    by (simp add: fold_annotate_found annot_start_def)
  have u: "unknown_count ?st = unknown_total ?d (readlines (universal_newlines gtext))"
    by (simp add: fold_annotate_unknown annot_start_def)
  obtain tail where t: "report rt ?d out ?st =
     [[LF] @ str ''--- Process Finished ---'',
      str ''Output file saved to '' @ [QUOTE] @ out @ [QUOTE],
      [LF] @ str ''--- Diagnostic Summary ---'',
      str ''Successfully mapped motifs: '' @ str_nat (found_count ?st),
      str ''Motifs not found (marked as UNKNOWN): '' @ str_nat (unknown_count ?st)] @ tail"
    using report_summary[of rt ?d out ?st] by blast
  show ?thesis
    unfolding add_family_normal_stdout[OF assms, of rt] t f u by blast
qed

lemma readlines_annotated_split:
  assumes "readlines s = pre @ l # post" and "qualifies l"
  shows "readlines (annotated_text (motif_to_family (build_lookup text)) (readlines s)) =
     map (annotated (motif_to_family (build_lookup text))) (filter qualifies pre) @
     [annotated (motif_to_family (build_lookup text)) l] @
     map (annotated (motif_to_family (build_lookup text))) (filter qualifies post)"
proof -
  have "readlines (annotated_text (motif_to_family (build_lookup text)) (readlines s)) =
      map (annotated (motif_to_family (build_lookup text))) (filter qualifies (readlines s))"
    by (rule readlines_annotated_text[of _ s]) simp
  then show ?thesis using assms by simp
qed

section \<open>Stage B: the annotation of a line\<close>

text \<open>
  Claim C4. Take a run on a lookup file and a GFF that exist, with an output path that can be
  opened and is not the GFF, and a line of the GFF (between the lines \<open>pre\<close> and \<open>post\<close>)
  whose raw text does not begin with \<^verbatim>\<open>#\<close>, that is not blank after trimming, whose trimmed
  text has at least 9 tab-separated fields, whose field 8 has the motif token with
  identifier \<open>xyz\<close>, and \<open>xyz\<close> is a key of the dictionary built from the lookup file, with
  value \<open>family\<close>. Then the output file holds, after what the lines of \<open>pre\<close> give and
  before what the lines of \<open>post\<close> give, the trimmed line, a tab, \<open>family\<close> and a newline;
  this is one line of the output file; and the summary printed at the end counts the line
  among the mapped motifs.
\<close>

theorem known_motif_line_written_with_family:
  assumes "files w family_list_file = Regular ftext"
    and "files w gff_input_file = Regular gtext"
    and "\<forall>e. files w output_file \<noteq> Faulty e"
    and "gff_input_file \<noteq> output_file"
    and "readlines (universal_newlines gtext) = pre @ line # post"
    and "\<not> startswith line (str ''#'')"
    and "strip line \<noteq> []"
    and "9 \<le> length (split_sep TAB (strip line))"
    and "extracts (split_sep TAB (strip line) ! 8) xyz"
    and "map_of (motif_to_family (build_lookup ftext)) xyz = Some family"
  shows "files (snd (add_family_column rt w gff_input_file family_list_file output_file))
           output_file =
           Regular (annotated_text (motif_to_family (build_lookup ftext)) pre @
                    (strip line @ [TAB] @ family @ [LF]) @
                    annotated_text (motif_to_family (build_lookup ftext)) post) \<and>
         readlines (annotated_text (motif_to_family (build_lookup ftext)) pre @
                    (strip line @ [TAB] @ family @ [LF]) @
                    annotated_text (motif_to_family (build_lookup ftext)) post) =
           map (annotated (motif_to_family (build_lookup ftext))) (filter qualifies pre) @
           [strip line @ [TAB] @ family @ [LF]] @
           map (annotated (motif_to_family (build_lookup ftext))) (filter qualifies post) \<and>
         (\<exists>tail. stdout (snd (add_family_column rt w gff_input_file family_list_file
                                output_file)) =
            stdout w @
            [str ''--- Starting Process ---'',
             str ''Reading TE family map from '' @ [QUOTE] @ family_list_file @ [QUOTE] @
               str ''...''] @
            lookup_printed (build_lookup ftext) @
            [str ''Successfully mapped '' @
               str_nat (length (motif_to_family (build_lookup ftext))) @ str '' motifs.'',
             str ''Processing '' @ [QUOTE] @ gff_input_file @ [QUOTE] @
               str '' and writing to '' @ [QUOTE] @ output_file @ [QUOTE] @ str ''...''] @
            [[LF] @ str ''--- Process Finished ---'',
             str ''Output file saved to '' @ [QUOTE] @ output_file @ [QUOTE],
             [LF] @ str ''--- Diagnostic Summary ---'',
             str ''Successfully mapped motifs: '' @
               str_nat (found_total (motif_to_family (build_lookup ftext)) pre + 1 +
                        found_total (motif_to_family (build_lookup ftext)) post),
             str ''Motifs not found (marked as UNKNOWN): '' @
               str_nat (unknown_total (motif_to_family (build_lookup ftext)) pre +
                        unknown_total (motif_to_family (build_lookup ftext)) post)] @ tail)"
proof -
  let ?d = "motif_to_family (build_lookup ftext)"
  have ne: "?d \<noteq> []" using assms(10) by auto
  have q: "qualifies line" using assms(6-8) by (simp add: qualifies_def)
  have k: "known_line ?d line" using assms(9,10) unfolding known_line_def by blast
  have a: "annotated ?d line = strip line @ [TAB] @ family @ [LF]"
    using resolved_label_known[OF assms(9,10)] by (simp add: annotated_def)
  note hyps = assms(1) ne assms(2) assms(3) assms(4)
  have f: "files (snd (add_family_column rt w gff_input_file family_list_file output_file))
           output_file =
           Regular (annotated_text ?d pre @ (strip line @ [TAB] @ family @ [LF]) @
                    annotated_text ?d post)"
    using add_family_normal[OF hyps, of rt] annotated_text_split[OF q, of ?d pre post]
    by (simp add: assms(5) a)
  have r: "readlines (annotated_text ?d pre @ (strip line @ [TAB] @ family @ [LF]) @
                    annotated_text ?d post) =
           map (annotated ?d) (filter qualifies pre) @
           [strip line @ [TAB] @ family @ [LF]] @
           map (annotated ?d) (filter qualifies post)"
    using readlines_annotated_split[OF assms(5) q, of ftext]
      annotated_text_split[OF q, of ?d pre post]
    by (simp add: assms(5) a)
  have ft: "found_total ?d (readlines (universal_newlines gtext)) =
      found_total ?d pre + 1 + found_total ?d post"
    using found_total_split[OF q, of ?d pre post] k by (simp add: assms(5))
  have ut: "unknown_total ?d (readlines (universal_newlines gtext)) =
      unknown_total ?d pre + unknown_total ?d post"
    using unknown_total_split[OF q, of ?d pre post] k by (simp add: assms(5))
  note s = add_family_normal_summary[OF hyps, of rt, unfolded ft ut]
  show ?thesis using f r s by blast
qed

lemma example_world_two_files:
  "files example_world_two (str ''fam'') = Regular example_lookup_small"
  "files example_world_two (str ''gff'') = Regular example_gff_two"
  "\<forall>e. files example_world_two (str ''out'') \<noteq> Faulty e"
  "str ''gff'' \<noteq> str ''out''"
  "stdout example_world_two = []"
  by (simp_all add: example_world_two_def text_world_def str_def)

lemma example_gff_two_lines:
  "readlines (universal_newlines example_gff_two) =
     [str ''##gff-version 3'' @ [LF], example_gff_line_plain] @ example_gff_line # []"
  "readlines (universal_newlines example_gff_two) =
     [str ''##gff-version 3'' @ [LF]] @ example_gff_line_plain # [example_gff_line]"
  by (simp_all add: example_gff_two_def example_gff_line_plain_def example_gff_line_def str_def)

lemma example_comment_not_qualifies: "\<not> qualifies (str ''##gff-version 3'' @ [LF])"
  by (simp add: qualifies_def startswith_def str_def)

lemma example_gff_line_qualifies: "qualifies example_gff_line"
  unfolding qualifies_def using example_gff_line_parts(1)
  by (simp add: example_gff_line_parts(2,3) str_def)

lemma example_gff_line_plain_qualifies: "qualifies example_gff_line_plain"
  unfolding qualifies_def using example_gff_line_plain_parts(1)
  by (simp add: example_gff_line_plain_parts(2,3) str_def)

lemma example_plain_unknown: "\<not> known_line d example_gff_line_plain"
  by (simp add: known_line_iff example_gff_line_plain_motif)

lemma example_plain_annotated:
  "annotated d example_gff_line_plain =
     strip example_gff_line_plain @ [TAB] @ str ''UNKNOWN'' @ [LF]"
  by (simp add: annotated_def resolved_label_unknown[OF example_plain_unknown])

lemma example_two_pre:
  "annotated_text d [str ''##gff-version 3'' @ [LF], example_gff_line_plain] =
     strip example_gff_line_plain @ [TAB] @ str ''UNKNOWN'' @ [LF]"
  by (simp add: annotated_text_def example_comment_not_qualifies
      example_gff_line_plain_qualifies example_plain_annotated)

theorem known_motif_line_written_with_family_witness:
  "readlines (universal_newlines example_gff_two) =
     [str ''##gff-version 3'' @ [LF], example_gff_line_plain] @ example_gff_line # [] \<and>
   \<not> startswith example_gff_line (str ''#'') \<and>
   length (split_sep TAB (strip example_gff_line)) = 9 \<and>
   extracts (split_sep TAB (strip example_gff_line) ! 8) (str ''rnd-1_family'') \<and>
   map_of (motif_to_family (build_lookup example_lookup_small)) (str ''rnd-1_family'') =
     Some (str ''LINE'') \<and>
   files (snd (add_family_column example_runtime example_world_two
            (str ''gff'') (str ''fam'') (str ''out''))) (str ''out'') =
     Regular (strip example_gff_line_plain @ [TAB] @ str ''UNKNOWN'' @ [LF] @
              strip example_gff_line @ [TAB] @ str ''LINE'' @ [LF])"
proof -
  have h7: "strip example_gff_line \<noteq> []"
    unfolding example_gff_line_parts(2) by (simp add: str_def)
  have h8: "9 \<le> length (split_sep TAB (strip example_gff_line))"
    by (simp add: example_gff_line_parts(3))
  have h9: "extracts (split_sep TAB (strip example_gff_line) ! 8) (str ''rnd-1_family'')"
    unfolding extracts_iff_search by (rule example_gff_line_motif)
  have h10: "map_of (motif_to_family (build_lookup example_lookup_small))
      (str ''rnd-1_family'') = Some (str ''LINE'')"
    by (simp add: example_lookup_small_built)
  note t = known_motif_line_written_with_family[OF example_world_two_files(1)
      example_world_two_files(2) example_world_two_files(3) example_world_two_files(4)
      example_gff_two_lines(1) example_gff_line_parts(1) h7 h8 h9 h10, of example_runtime]
  have e: "annotated_text (motif_to_family (build_lookup example_lookup_small)) [] = []"
    by (simp add: annotated_text_def)
  have a: "files (snd (add_family_column example_runtime example_world_two
            (str ''gff'') (str ''fam'') (str ''out''))) (str ''out'') =
     Regular (strip example_gff_line_plain @ [TAB] @ str ''UNKNOWN'' @ [LF] @
              strip example_gff_line @ [TAB] @ str ''LINE'' @ [LF])"
    using t by (simp add: example_two_pre e)
  show ?thesis
    by (intro conjI)
       (rule example_gff_two_lines(1) example_gff_line_parts(1) example_gff_line_parts(3)
          h9 h10 a)+
qed

text \<open>
  Claim C5. Take a run that reaches the GFF (the dictionary built from the lookup file is
  not empty, the GFF exists, the output path can be opened and is not the GFF) and a line of
  the GFF that qualifies for output. When field 8 of the line has no \<^verbatim>\<open>Motif:\<close> followed by a
  character that is neither a double quote nor whitespace (in particular when it has no
  \<^verbatim>\<open>Motif:\<close> at all), or when the identifier of its motif token is not a key of the
  dictionary, the output file holds, in the place of the line, the trimmed line, a tab,
  \<^verbatim>\<open>UNKNOWN\<close> and a newline; this is one line of the output file; and the line adds one to the
  count of unknown motifs that the summary prints, and nothing to the count of mapped ones.
\<close>

theorem unknown_motif_line_written_with_UNKNOWN:
  assumes "files w family_list_file = Regular ftext"
    and "motif_to_family (build_lookup ftext) \<noteq> []"
    and "files w gff_input_file = Regular gtext"
    and "\<forall>e. files w output_file \<noteq> Faulty e"
    and "gff_input_file \<noteq> output_file"
    and "readlines (universal_newlines gtext) = pre @ line # post"
    and "\<not> startswith line (str ''#'')"
    and "strip line \<noteq> []"
    and "9 \<le> length (split_sep TAB (strip line))"
    and "\<not> (\<exists>p c q. split_sep TAB (strip line) ! 8 = p @ str ''Motif:'' @ c # q \<and>
                    c \<noteq> DQUOTE \<and> \<not> isspace c) \<or>
         (\<exists>xyz. extracts (split_sep TAB (strip line) ! 8) xyz \<and>
                map_of (motif_to_family (build_lookup ftext)) xyz = None)"
  shows "files (snd (add_family_column rt w gff_input_file family_list_file output_file))
           output_file =
           Regular (annotated_text (motif_to_family (build_lookup ftext)) pre @
                    (strip line @ [TAB] @ str ''UNKNOWN'' @ [LF]) @
                    annotated_text (motif_to_family (build_lookup ftext)) post) \<and>
         readlines (annotated_text (motif_to_family (build_lookup ftext)) pre @
                    (strip line @ [TAB] @ str ''UNKNOWN'' @ [LF]) @
                    annotated_text (motif_to_family (build_lookup ftext)) post) =
           map (annotated (motif_to_family (build_lookup ftext))) (filter qualifies pre) @
           [strip line @ [TAB] @ str ''UNKNOWN'' @ [LF]] @
           map (annotated (motif_to_family (build_lookup ftext))) (filter qualifies post) \<and>
         (\<exists>tail. stdout (snd (add_family_column rt w gff_input_file family_list_file
                                output_file)) =
            stdout w @
            [str ''--- Starting Process ---'',
             str ''Reading TE family map from '' @ [QUOTE] @ family_list_file @ [QUOTE] @
               str ''...''] @
            lookup_printed (build_lookup ftext) @
            [str ''Successfully mapped '' @
               str_nat (length (motif_to_family (build_lookup ftext))) @ str '' motifs.'',
             str ''Processing '' @ [QUOTE] @ gff_input_file @ [QUOTE] @
               str '' and writing to '' @ [QUOTE] @ output_file @ [QUOTE] @ str ''...''] @
            [[LF] @ str ''--- Process Finished ---'',
             str ''Output file saved to '' @ [QUOTE] @ output_file @ [QUOTE],
             [LF] @ str ''--- Diagnostic Summary ---'',
             str ''Successfully mapped motifs: '' @
               str_nat (found_total (motif_to_family (build_lookup ftext)) pre +
                        found_total (motif_to_family (build_lookup ftext)) post),
             str ''Motifs not found (marked as UNKNOWN): '' @
               str_nat (unknown_total (motif_to_family (build_lookup ftext)) pre + 1 +
                        unknown_total (motif_to_family (build_lookup ftext)) post)] @ tail)"
proof -
  let ?d = "motif_to_family (build_lookup ftext)"
  let ?attrs = "split_sep TAB (strip line) ! 8"
  have q: "qualifies line" using assms(7-9) by (simp add: qualifies_def)
  have k: "\<not> known_line ?d line"
    using assms(10)
  proof
    assume "\<not> (\<exists>p c q. ?attrs = p @ str ''Motif:'' @ c # q \<and> c \<noteq> DQUOTE \<and> \<not> isspace c)"
    then have "re_search_motif ?attrs = None" unfolding no_match_iff_search .
    then show ?thesis by (simp add: known_line_iff)
  next
    assume "\<exists>xyz. extracts ?attrs xyz \<and> map_of ?d xyz = None"
    then obtain xyz where "re_search_motif ?attrs = Some xyz" "map_of ?d xyz = None"
      unfolding extracts_iff_search by blast
    then show ?thesis by (simp add: known_line_iff)
  qed
  have a: "annotated ?d line = strip line @ [TAB] @ str ''UNKNOWN'' @ [LF]"
    using resolved_label_unknown[OF k] by (simp add: annotated_def)
  note hyps = assms(1-5)
  have f: "files (snd (add_family_column rt w gff_input_file family_list_file output_file))
           output_file =
           Regular (annotated_text ?d pre @ (strip line @ [TAB] @ str ''UNKNOWN'' @ [LF]) @
                    annotated_text ?d post)"
    using add_family_normal[OF hyps, of rt] annotated_text_split[OF q, of ?d pre post]
    by (simp add: assms(6) a)
  have r: "readlines (annotated_text ?d pre @ (strip line @ [TAB] @ str ''UNKNOWN'' @ [LF]) @
                    annotated_text ?d post) =
           map (annotated ?d) (filter qualifies pre) @
           [strip line @ [TAB] @ str ''UNKNOWN'' @ [LF]] @
           map (annotated ?d) (filter qualifies post)"
    using readlines_annotated_split[OF assms(6) q, of ftext]
      annotated_text_split[OF q, of ?d pre post]
    by (simp add: assms(6) a)
  have ft: "found_total ?d (readlines (universal_newlines gtext)) =
      found_total ?d pre + found_total ?d post"
    using found_total_split[OF q, of ?d pre post] k by (simp add: assms(6))
  have ut: "unknown_total ?d (readlines (universal_newlines gtext)) =
      unknown_total ?d pre + 1 + unknown_total ?d post"
    using unknown_total_split[OF q, of ?d pre post] k by (simp add: assms(6))
  note s = add_family_normal_summary[OF hyps, of rt, unfolded ft ut]
  show ?thesis using f r s by blast
qed

lemma example_lookup_small_printed: "lookup_printed (build_lookup example_lookup_small) = []"
  by (simp add: build_lookup_def example_lookup_small_def read_family_line_def strip_def
      isspace_def str_def)

lemma example_lookup_other_built:
  "motif_to_family (build_lookup example_lookup_other) = [(str ''other'', str ''DNA'')]"
  by (simp add: build_lookup_def example_lookup_other_def read_family_line_def strip_def
      isspace_def str_def)

lemma example_world_other_files:
  "files example_world_other (str ''fam'') = Regular example_lookup_other"
  "files example_world_other (str ''gff'') = Regular example_gff_two"
  "\<forall>e. files example_world_other (str ''out'') \<noteq> Faulty e"
  by (simp_all add: example_world_other_def text_world_def str_def)

lemma example_totals_small:
  "found_total [(str ''rnd-1_family'', str ''LINE'')] [str ''##gff-version 3'' @ [LF]] = 0"
  "unknown_total [(str ''rnd-1_family'', str ''LINE'')] [str ''##gff-version 3'' @ [LF]] = 0"
  "found_total [(str ''rnd-1_family'', str ''LINE'')] [example_gff_line] = 1"
  "unknown_total [(str ''rnd-1_family'', str ''LINE'')] [example_gff_line] = 0"
  by (simp_all add: found_total_def unknown_total_def example_comment_not_qualifies
      example_gff_line_qualifies known_line_iff example_gff_line_motif)

theorem unknown_motif_line_written_with_UNKNOWN_witness:
  "readlines (universal_newlines example_gff_two) =
     [str ''##gff-version 3'' @ [LF]] @ example_gff_line_plain # [example_gff_line] \<and>
   \<not> startswith example_gff_line_plain (str ''#'') \<and>
   length (split_sep TAB (strip example_gff_line_plain)) = 9 \<and>
   split_sep TAB (strip example_gff_line_plain) ! 8 = str ''Target none'' \<and>
   files (snd (add_family_column example_runtime example_world_two
            (str ''gff'') (str ''fam'') (str ''out''))) (str ''out'') =
     Regular (strip example_gff_line_plain @ [TAB] @ str ''UNKNOWN'' @ [LF] @
              strip example_gff_line @ [TAB] @ str ''LINE'' @ [LF]) \<and>
   (\<exists>tail. stdout (snd (add_family_column example_runtime example_world_two
                         (str ''gff'') (str ''fam'') (str ''out''))) =
      [str ''--- Starting Process ---'',
       str ''Reading TE family map from '' @ [QUOTE] @ str ''fam'' @ [QUOTE] @ str ''...'',
       str ''Successfully mapped 1 motifs.'',
       str ''Processing '' @ [QUOTE] @ str ''gff'' @ [QUOTE] @ str '' and writing to '' @
         [QUOTE] @ str ''out'' @ [QUOTE] @ str ''...'',
       [LF] @ str ''--- Process Finished ---'',
       str ''Output file saved to '' @ [QUOTE] @ str ''out'' @ [QUOTE],
       [LF] @ str ''--- Diagnostic Summary ---'',
       str ''Successfully mapped motifs: 1'',
       str ''Motifs not found (marked as UNKNOWN): 1''] @ tail) \<and>
   extracts (split_sep TAB (strip example_gff_line) ! 8) (str ''rnd-1_family'') \<and>
   map_of (motif_to_family (build_lookup example_lookup_other)) (str ''rnd-1_family'') = None \<and>
   files (snd (add_family_column example_runtime example_world_other
            (str ''gff'') (str ''fam'') (str ''out''))) (str ''out'') =
     Regular (strip example_gff_line_plain @ [TAB] @ str ''UNKNOWN'' @ [LF] @
              strip example_gff_line @ [TAB] @ str ''UNKNOWN'' @ [LF])"
proof -
  have ne: "motif_to_family (build_lookup example_lookup_small) \<noteq> []"
    by (simp add: example_lookup_small_built)
  have p8: "strip example_gff_line_plain \<noteq> []"
    unfolding example_gff_line_plain_parts(2) by (simp add: str_def)
  have p9: "9 \<le> length (split_sep TAB (strip example_gff_line_plain))"
    by (simp add: example_gff_line_plain_parts(3))
  have "\<not> (\<exists>p c q. split_sep TAB (strip example_gff_line_plain) ! 8 =
                p @ str ''Motif:'' @ c # q \<and> c \<noteq> DQUOTE \<and> \<not> isspace c)"
    unfolding no_match_iff_search by (rule example_gff_line_plain_motif)
  then have p10: "\<not> (\<exists>p c q. split_sep TAB (strip example_gff_line_plain) ! 8 =
                p @ str ''Motif:'' @ c # q \<and> c \<noteq> DQUOTE \<and> \<not> isspace c) \<or>
      (\<exists>xyz. extracts (split_sep TAB (strip example_gff_line_plain) ! 8) xyz \<and>
             map_of (motif_to_family (build_lookup example_lookup_small)) xyz = None)"
    by blast
  note t1 = unknown_motif_line_written_with_UNKNOWN[OF example_world_two_files(1) ne
      example_world_two_files(2) example_world_two_files(3) example_world_two_files(4)
      example_gff_two_lines(2) example_gff_line_plain_parts(1) p8 p9 p10, of example_runtime]
  have c: "annotated_text [(str ''rnd-1_family'', str ''LINE'')] [str ''##gff-version 3'' @ [LF]]
      = []"
    by (simp add: annotated_text_def example_comment_not_qualifies)
  have k: "resolved_label [(str ''rnd-1_family'', str ''LINE'')] example_gff_line = str ''LINE''"
    by (simp add: resolved_label_def example_gff_line_motif)
  have s: "annotated_text [(str ''rnd-1_family'', str ''LINE'')] [example_gff_line] =
      strip example_gff_line @ [TAB] @ str ''LINE'' @ [LF]"
    by (simp add: annotated_text_def example_gff_line_qualifies annotated_def k)
  have a1: "files (snd (add_family_column example_runtime example_world_two
            (str ''gff'') (str ''fam'') (str ''out''))) (str ''out'') =
     Regular (strip example_gff_line_plain @ [TAB] @ str ''UNKNOWN'' @ [LF] @
              strip example_gff_line @ [TAB] @ str ''LINE'' @ [LF])"
    using t1 by (simp add: example_lookup_small_built c s)
  have n: "str_nat (Suc 0) = str ''1''" "str_nat 1 = str ''1''"
    by (simp_all add: str_nat.simps[of "Suc 0"] str_nat.simps[of 1] str_def)
  from t1 have "\<exists>tail. stdout (snd (add_family_column example_runtime example_world_two
                         (str ''gff'') (str ''fam'') (str ''out''))) =
      [str ''--- Starting Process ---'',
       str ''Reading TE family map from '' @ [QUOTE] @ str ''fam'' @ [QUOTE] @ str ''...'',
       str ''Successfully mapped '' @ str ''1'' @ str '' motifs.'',
       str ''Processing '' @ [QUOTE] @ str ''gff'' @ [QUOTE] @ str '' and writing to '' @
         [QUOTE] @ str ''out'' @ [QUOTE] @ str ''...'',
       [LF] @ str ''--- Process Finished ---'',
       str ''Output file saved to '' @ [QUOTE] @ str ''out'' @ [QUOTE],
       [LF] @ str ''--- Diagnostic Summary ---'',
       str ''Successfully mapped motifs: '' @ str ''1'',
       str ''Motifs not found (marked as UNKNOWN): '' @ str ''1''] @ tail"
    by (simp add: example_lookup_small_built example_lookup_small_printed
        example_totals_small example_world_two_files(5) n)
  then have b1: "\<exists>tail. stdout (snd (add_family_column example_runtime example_world_two
                         (str ''gff'') (str ''fam'') (str ''out''))) =
      [str ''--- Starting Process ---'',
       str ''Reading TE family map from '' @ [QUOTE] @ str ''fam'' @ [QUOTE] @ str ''...'',
       str ''Successfully mapped 1 motifs.'',
       str ''Processing '' @ [QUOTE] @ str ''gff'' @ [QUOTE] @ str '' and writing to '' @
         [QUOTE] @ str ''out'' @ [QUOTE] @ str ''...'',
       [LF] @ str ''--- Process Finished ---'',
       str ''Output file saved to '' @ [QUOTE] @ str ''out'' @ [QUOTE],
       [LF] @ str ''--- Diagnostic Summary ---'',
       str ''Successfully mapped motifs: 1'',
       str ''Motifs not found (marked as UNKNOWN): 1''] @ tail"
    by (simp add: str_def)
  have ne2: "motif_to_family (build_lookup example_lookup_other) \<noteq> []"
    by (simp add: example_lookup_other_built)
  have g8: "strip example_gff_line \<noteq> []"
    unfolding example_gff_line_parts(2) by (simp add: str_def)
  have g9: "9 \<le> length (split_sep TAB (strip example_gff_line))"
    by (simp add: example_gff_line_parts(3))
  have x: "extracts (split_sep TAB (strip example_gff_line) ! 8) (str ''rnd-1_family'')"
    unfolding extracts_iff_search by (rule example_gff_line_motif)
  have m: "map_of (motif_to_family (build_lookup example_lookup_other))
      (str ''rnd-1_family'') = None"
    by (simp add: example_lookup_other_built str_def)
  have g10: "\<not> (\<exists>p c q. split_sep TAB (strip example_gff_line) ! 8 =
                p @ str ''Motif:'' @ c # q \<and> c \<noteq> DQUOTE \<and> \<not> isspace c) \<or>
      (\<exists>xyz. extracts (split_sep TAB (strip example_gff_line) ! 8) xyz \<and>
             map_of (motif_to_family (build_lookup example_lookup_other)) xyz = None)"
    using x m by blast
  note t2 = unknown_motif_line_written_with_UNKNOWN[OF example_world_other_files(1) ne2
      example_world_other_files(2) example_world_other_files(3) example_world_two_files(4)
      example_gff_two_lines(1) example_gff_line_parts(1) g8 g9 g10, of example_runtime]
  have e: "annotated_text (motif_to_family (build_lookup example_lookup_other)) [] = []"
    by (simp add: annotated_text_def)
  have a2: "files (snd (add_family_column example_runtime example_world_other
            (str ''gff'') (str ''fam'') (str ''out''))) (str ''out'') =
     Regular (strip example_gff_line_plain @ [TAB] @ str ''UNKNOWN'' @ [LF] @
              strip example_gff_line @ [TAB] @ str ''UNKNOWN'' @ [LF])"
    using t2 by (simp add: example_two_pre e)
  show ?thesis
    by (intro conjI)
       (rule example_gff_two_lines(2) example_gff_line_plain_parts(1)
          example_gff_line_plain_parts(3) example_gff_line_plain_parts(4) a1 b1 x m a2)+
qed

end
